theory Spec2Isabelle
  imports Main
begin

section \<open>Exceptions\<close>

text \<open>
  The exceptions.  A function that can raise returns \<open>error + 'a\<close>, with \<open>Inl\<close> for
  the exception; \<open>SanityError\<close> is a failed \<open>SanityCheck\<close>, \<open>OtherError\<close> any exception
  without a name here.
\<close>

datatype error =
  IndexError | TypeError | KeyError | ConstraintError | InternalError | SanityError |
  AssertionError | OtherError

section \<open>Invocation database (autoinf/inference/api_parsing.py)\<close>

text \<open>
  A value of an invocation tuple is an integer or Python's \<open>None\<close> (a non-integer
  attribute); \<open>None\<close> is \<open>None\<close> of the option type, so \<open>isinstance(v, int)\<close> is
  \<open>v \<noteq> None\<close>.  The sets \<open>DB["success"]\<close> and \<open>DB["fail"]\<close> are given as the lists that
  \<open>list(...)\<close> makes of them.
\<close>

type_synonym val = "int option"

type_synonym success_record = "val list \<times> val list"

record OpDatabase =
  success :: "success_record list"
  fail :: "val list list"
  related :: "nat set list"
  unrelated :: "nat set list"
  aliases :: "(nat \<times> nat) list"

text \<open>\<open>OpDatabase.__init__\<close> without a file name: empty sets and empty analysis lists.\<close>

definition OpDatabase_init :: OpDatabase where
  "OpDatabase_init =
     \<lparr>success = [], fail = [], related = [], unrelated = [], aliases = []\<rparr>"

text \<open>
  Modelled from the spec: \<open>compare_array_diff\<close> of autoinf.inference.utils is not among
  the sources; the spec's relatedness heuristic uses it for the input indices at which
  two records differ.
\<close>

definition compare_array_diff :: "val list \<Rightarrow> val list \<Rightarrow> nat list" where
  "compare_array_diff a b = filter (\<lambda>k. a ! k \<noteq> b ! k) [0..<min (length a) (length b)]"

text \<open>
  The innermost loop of the alias analysis: \<open>valid\<close> stays true while
  \<open>inputs[i] == inputs[j]\<close>, the first difference breaks with false, and an index out
  of a record's range raises.
\<close>

fun alias_valid :: "nat \<Rightarrow> nat \<Rightarrow> success_record list \<Rightarrow> error + bool" where
  "alias_valid i j [] = Inr True"
| "alias_valid i j ((inputs, outputs) # rs) =
     (if i < length inputs \<and> j < length inputs
      then (if inputs ! i \<noteq> inputs ! j then Inr False else alias_valid i j rs)
      else Inl IndexError)"

text \<open>The loop over \<open>j\<close> for one \<open>i\<close>, appending to \<open>self.aliases\<close>.\<close>

fun alias_inner ::
  "success_record list \<Rightarrow> nat \<Rightarrow> nat list \<Rightarrow> (nat \<times> nat) list \<Rightarrow> error + (nat \<times> nat) list"
where
  "alias_inner rl i [] al = Inr al"
| "alias_inner rl i (j # js) al =
     (case alias_valid i j rl of
        Inl e \<Rightarrow> Inl e
      | Inr valid \<Rightarrow> alias_inner rl i js (if valid then al @ [(i, j)] else al))"

text \<open>The loop over \<open>i\<close>; \<open>n\<close> is \<open>input_len\<close>.\<close>

fun alias_outer ::
  "success_record list \<Rightarrow> nat \<Rightarrow> nat list \<Rightarrow> (nat \<times> nat) list \<Rightarrow> error + (nat \<times> nat) list"
where
  "alias_outer rl n [] al = Inr al"
| "alias_outer rl n (i # is) al =
     (case alias_inner rl i [i + 1..<n] al of
        Inl e \<Rightarrow> Inl e
      | Inr al' \<Rightarrow> alias_outer rl n is al')"

text \<open>
  The third loop: every input position holding a non-integer joins \<open>unrelated[k]\<close> for
  each output position \<open>k\<close> of that record.
\<close>

definition mark_nonint :: "success_record \<Rightarrow> nat set list \<Rightarrow> nat set list" where
  "mark_nonint r un =
     fold (\<lambda>j un1. if fst r ! j = None
                   then fold (\<lambda>k un2. un2[k := insert j (un2 ! k)]) [0..<length (snd r)] un1
                   else un1)
       [0..<length (fst r)] un"

text \<open>The fourth loop's body for one pair of records.\<close>

definition relate_pair ::
  "success_record \<Rightarrow> success_record \<Rightarrow> nat set list \<times> nat set list \<Rightarrow> nat set list \<times> nat set list"
where
  "relate_pair r r' st =
     (let diff = compare_array_diff (fst r) (fst r');
          cmp_len = min (length (snd r)) (length (snd r'));
          rel1 = (if 0 < length diff \<and> length diff \<le> 3
                  then fold (\<lambda>k rel. if snd r ! k \<noteq> snd r' ! k
                                      then rel[k := set diff \<union> rel ! k] else rel)
                         [0..<cmp_len] (fst st)
                  else fst st);
          un1 = (if length diff = 1
                 then fold (\<lambda>k un. if snd r ! k = snd r' ! k
                                    then un[k := insert (diff ! 0) (un ! k)] else un)
                        [0..<cmp_len] (snd st)
                 else snd st)
      in (rel1, un1))"

definition relate_all ::
  "success_record list \<Rightarrow> nat set list \<times> nat set list \<Rightarrow> nat set list \<times> nat set list"
where
  "relate_all rl st =
     fold (\<lambda>i st1. fold (\<lambda>j st2. relate_pair (rl ! i) (rl ! j) st2) [i + 1..<length rl] st1)
       [0..<length rl] st"

text \<open>
  \<open>OpDatabase.analyze_symbol\<close>.  \<open>record_list[0][0]\<close> raises on an empty success set.
\<close>

definition analyze_symbol :: "OpDatabase \<Rightarrow> error + OpDatabase" where
  "analyze_symbol db =
     (let record_list = success db in
      case record_list of
        [] \<Rightarrow> Inl IndexError
      | r0 # _ \<Rightarrow>
          (let input_len = length (fst r0);
               output_len = Max (set (map (\<lambda>item. length (snd item)) record_list))
           in case alias_outer record_list input_len [0..<input_len - 1] (aliases db) of
                Inl e \<Rightarrow> Inl e
              | Inr al \<Rightarrow>
                  (let rel0 = related db @ replicate output_len {};
                       un0 = unrelated db @ replicate output_len {};
                       un1 = fold mark_nonint record_list un0;
                       (rel2, un2) = relate_all record_list (rel0, un1)
                   in Inr (db\<lparr>aliases := al, related := rel2, unrelated := un2\<rparr>))))"

text \<open>\<open>OpDatabase.check_duplicate_sym\<close>: the bit mask holds both symbols of an alias pair.\<close>

definition check_duplicate_sym :: "OpDatabase \<Rightarrow> nat \<Rightarrow> bool" where
  "check_duplicate_sym db sym_set =
     list_ex (\<lambda>(i, j). bit sym_set i \<and> bit sym_set j) (aliases db)"

section \<open>Operator instances (autoinf/instrument/op.py)\<close>

text \<open>
  A symbol name is \<open>s<n>\<close> for an input and \<open>o<n>\<close> for an output.  The shape of an
  abstract tensor is a list of symbols; \<open>abs_to_concrete\<close> later replaces it by a list of
  values, so the element type of the shape is a parameter.
\<close>

datatype symb = Sym_s nat | Sym_o nat

record 'a AbsTensor =
  rank :: nat
  shape :: "'a list"
  dtype :: string

record OpInstance =
  input_tensors :: "symb AbsTensor list"
  output_tensors :: "symb AbsTensor list"

text \<open>The property \<open>OpInstance.I\<close>: the symbols of the input tensors' shapes, in order.\<close>

definition I :: "OpInstance \<Rightarrow> symb list" where
  "I inst = concat (map shape (input_tensors inst))"

section \<open>Mutator (autoinf/inference/api_parsing.py)\<close>

text \<open>
  \<open>OpDatabase.Add\<close>: a tuple joins the fail set when there are no outputs, the success
  set otherwise; adding to a set keeps one copy.
\<close>

definition Add :: "val list \<Rightarrow> val list option \<Rightarrow> OpDatabase \<Rightarrow> OpDatabase" where
  "Add inputs outputs db =
     (case outputs of
        None \<Rightarrow> db\<lparr>fail := List.insert inputs (fail db)\<rparr>
      | Some outs \<Rightarrow> db\<lparr>success := List.insert (inputs, outs) (success db)\<rparr>)"

text \<open>
  An input assignment is the dictionary \<open>{s0: v0, s1: v1, ...}\<close> of a record; its keys
  are dense, so it is the list of its values and \<open>input_dict[f"s{i}"]\<close> is the element at
  \<open>i\<close>.  The oracle \<open>input_validity_test\<close> runs the operator (it is not part of the
  sources and is a parameter): it returns the input tuple and the output tuple or
  \<open>None\<close>.
\<close>

type_synonym assignment = "int list"

type_synonym validity_oracle = "assignment \<Rightarrow> val list \<times> val list option"

text \<open>\<open>add_new_input\<close>: successful outputs of another arity are dropped.\<close>

definition add_new_input :: "validity_oracle \<Rightarrow> nat \<Rightarrow> assignment \<Rightarrow> OpDatabase \<Rightarrow> OpDatabase" where
  "add_new_input oracle output_len input_dict db =
     (let (inputs, outputs) = oracle input_dict in
      if \<not> (outputs \<noteq> None \<and> length (the outputs) \<noteq> output_len)
      then Add inputs outputs db else db)"

text \<open>
  \<open>mutateTarget\<close> adds \<open>delta\<close> to every symbol whose bit is set in the mask; the
  result is the assignment it passes to the oracle.
\<close>

definition mutateTarget :: "assignment \<Rightarrow> nat \<Rightarrow> int \<Rightarrow> assignment" where
  "mutateTarget input_symb_2_value mutateMask delta =
     map (\<lambda>argNum. if bit mutateMask argNum
                    then input_symb_2_value ! argNum + delta
                    else input_symb_2_value ! argNum)
       [0..<length input_symb_2_value]"

text \<open>
  The assignments that each step of \<open>mutate\<close> passes to the oracle, in the order of
  the calls.  Step 1, for one symbol that is not a shape symbol: the values 0 and -2.
\<close>

definition single_probes :: "OpInstance \<Rightarrow> assignment \<Rightarrow> nat \<Rightarrow> assignment list" where
  "single_probes inst record0 i =
     (if Sym_s i \<in> set (I inst) then []
      else (let input_dict = record0[i := 0] in [input_dict, input_dict[i := - 2]]))"

text \<open>
  Step 2, for one pair \<open>i < j\<close>: when the two values are equal, \<open>s_j\<close> is incremented
  and probed; then the values at \<open>i\<close> and \<open>j\<close> of the same dictionary are exchanged and
  probed.
\<close>

definition pair_probes :: "assignment \<Rightarrow> nat \<Rightarrow> nat \<Rightarrow> assignment list" where
  "pair_probes record0 i j =
     (let input_dict = record0 in
      if input_dict ! i = input_dict ! j
      then (let input_dict1 = input_dict[j := input_dict ! j + 1]
            in [input_dict1, input_dict1[i := input_dict1 ! j, j := input_dict1 ! i]])
      else [input_dict[i := input_dict ! j, j := input_dict ! i]])"

definition mutate_probes :: "OpInstance \<Rightarrow> assignment \<Rightarrow> assignment list" where
  "mutate_probes inst record0 =
     (let mutateCount = length record0 in
      concat (map (single_probes inst record0) [0..<mutateCount])
      @ concat (map (\<lambda>i. concat (map (pair_probes record0 i) [i + 1..<mutateCount]))
                  [0..<mutateCount])
      @ (if mutateCount \<le> 8
         then map (\<lambda>mutateMask. mutateTarget record0 mutateMask 2) [1..<2 ^ mutateCount]
         else [])
      @ (if mutateCount \<le> 100
         then concat (map (\<lambda>mutateID. map (\<lambda>delta. mutateTarget record0 (2 ^ mutateID) (int delta))
                                           [1..<4])
                        [0..<mutateCount])
         else [])
      @ (if mutateCount \<le> 50
         then concat (map (\<lambda>id1. concat (map (\<lambda>id2.
                        map (\<lambda>delta. mutateTarget record0 (or (2 ^ id1) (2 ^ id2)) (int delta))
                          [1..<3])
                        [id1 + 1..<mutateCount]))
                      [0..<mutateCount])
         else []))"

text \<open>
  \<open>mutate\<close>: every probe goes to the oracle and its answer into the database, under the
  arity check of \<open>add_new_input\<close> (which the later steps repeat inline).
\<close>

definition mutate ::
  "validity_oracle \<Rightarrow> OpInstance \<Rightarrow> assignment \<times> int list \<Rightarrow> OpDatabase \<Rightarrow> OpDatabase"
where
  "mutate oracle inst record db =
     fold (add_new_input oracle (length (snd record))) (mutate_probes inst (fst record)) db"

section \<open>Expression trees and bit masks (parameters of the synthesisers)\<close>

text \<open>
  The module autoinf.inference.tree is not among the sources.  What the synthesisers
  use of it is a parameter: the enumeration \<open>genTreeList\<close> of the slots
  \<open>(depth, ArgSet, i)\<close>, the lookup \<open>getTree\<close>, and of a tree the root operator \<open>op\<close>
  (\<open>None\<close> at a leaf) and \<open>evaluate\<close> on a list of values, which raises or returns a
  value.
\<close>

record 't TreeModule =
  genTreeList :: "nat \<Rightarrow> nat \<Rightarrow> (nat \<times> nat \<times> nat) list"
  getTree :: "nat \<Rightarrow> nat \<Rightarrow> nat \<Rightarrow> 't"
  op :: "'t \<Rightarrow> string option"
  evaluate :: "'t \<Rightarrow> val list \<Rightarrow> error + val"

text \<open>The constants of configs.py that bound the enumeration.\<close>

definition TreeMaxHeight :: nat where
  "TreeMaxHeight = 5"

definition TreeArgCount :: nat where
  "TreeArgCount = 5"

text \<open>
  Modelled from the spec: \<open>popcount\<close> and \<open>mask_to_list\<close> of autoinf.inference.utils
  are not among the sources; a bit mask stands for a set of symbol indices, \<open>popcount\<close>
  is its size and \<open>mask_to_list\<close> lists its indices in increasing order.
\<close>

fun popcount :: "nat \<Rightarrow> nat" where
  "popcount n = (if n = 0 then 0 else n mod 2 + popcount (n div 2))"

fun mask_bits :: "nat \<Rightarrow> nat \<Rightarrow> nat list" where
  "mask_bits n k = (if n = 0 then [] else (if odd n then [k] else []) @ mask_bits (n div 2) (k + 1))"

declare popcount.simps [simp del] mask_bits.simps [simp del]

definition mask_to_list :: "nat \<Rightarrow> nat list" where
  "mask_to_list sym_set = mask_bits sym_set 0"

text \<open>
  \<open>dfs\<close> (the same in both synthesisers) appends to \<open>tmp_store\<close> the masks of the
  increasing index lists of length \<open>count\<close> below \<open>lim\<close>; the model returns what it
  appends.  \<open>gen_sym_set\<close> calls it with \<open>cur = 0\<close> and the empty list, so that
  \<open>symlist\<close> has \<open>cur\<close> elements throughout.
\<close>

function dfs :: "nat \<Rightarrow> nat \<Rightarrow> nat \<Rightarrow> nat list \<Rightarrow> nat list" where
  "dfs cur count lim symlist =
     (if cur = count
      then [fold (\<lambda>i res. or res (2 ^ (symlist ! i))) [0..<count] 0]
      else (let st = (if length symlist = 0 then 0 else last symlist + 1)
            in concat (map (\<lambda>nxt. dfs (cur + 1) count lim (symlist @ [nxt])) [st..<lim])))"
  by pat_completeness auto
termination
  by (relation "measure (\<lambda>(cur, count, lim, symlist).
                  lim - (if symlist = [] then 0 else last symlist + 1))") auto

declare dfs.simps [simp del]

text \<open>
  \<open>gen_sym_set\<close>; the table \<open>sym_set_table\<close> only caches its results.  The test of
  \<open>count = 0\<close> is that of symbl_int_solve.py; strict_input_solve.py has none, and
  \<open>dfs\<close> returns the same list \<open>[0]\<close> there.
\<close>

definition gen_sym_set :: "nat \<Rightarrow> nat \<Rightarrow> nat list" where
  "gen_sym_set all_syms count = (if count = 0 then [0] else dfs 0 count (popcount all_syms) [])"

text \<open>A \<open>for\<close> loop over a list whose body updates a state and may raise.\<close>

fun for_loop :: "('a \<Rightarrow> 's \<Rightarrow> error + 's) \<Rightarrow> 'a list \<Rightarrow> 's \<Rightarrow> error + 's" where
  "for_loop body [] s = Inr s"
| "for_loop body (x # xs) s =
     (case body x s of Inl e \<Rightarrow> Inl e | Inr s' \<Rightarrow> for_loop body xs s')"

text \<open>\<open>val = [inputs[argNum] for argNum in sym_list]\<close>.\<close>

definition collect_val :: "nat list \<Rightarrow> val list \<Rightarrow> error + val list" where
  "collect_val sym_list inputs =
     (if \<forall>argNum \<in> set sym_list. argNum < length inputs
      then Inr (map (\<lambda>argNum. inputs ! argNum) sym_list)
      else Inl IndexError)"

section \<open>Constraint-rule synthesiser (autoinf/inference/strict_input_solve.py)\<close>

datatype sign = Eq | Gt | Ge

text \<open>
  Python's \<open>v == 0\<close>, \<open>v > 0\<close> and \<open>v >= 0\<close>: the order comparisons raise on \<open>None\<close>.
\<close>

fun py_rel :: "sign \<Rightarrow> val \<Rightarrow> error + bool" where
  "py_rel Eq v = Inr (v = Some 0)"
| "py_rel Gt None = Inl TypeError"
| "py_rel Gt (Some x) = Inr (x > 0)"
| "py_rel Ge None = Inl TypeError"
| "py_rel Ge (Some x) = Inr (x \<ge> 0)"

text \<open>
  A rule is kept as the text of an expression over \<open>s0, s1, ...\<close> and a sign.  The
  two texts that \<open>solve_inst\<close> makes are \<open>s<i>-<val>\<close> and
  \<open>remap(tree.display(), sym_list)\<close>, the tree with its slot \<open>k\<close> renamed to the symbol
  \<open>sym_list[k]\<close>; the model keeps what the text is made of.
\<close>

datatype 't rule_expr = SymMinusConst nat int | Remap 't "nat list"

type_synonym 't rule = "'t rule_expr \<times> sign"

text \<open>
  \<open>equivalent\<close> of autoinf.inference.utils asks the SMT solver whether two formulas
  are equivalent; it is a parameter.  The formula \<open>And(...And(And(True, e1), e2)..., en)\<close>
  is the list of its rules.
\<close>

type_synonym 't equivalence = "'t rule list \<Rightarrow> 't rule list \<Rightarrow> bool"

text \<open>\<open>del_expr\<close>: the conjunction of the rules at the indices other than \<open>i\<close>.\<close>

definition del_expr :: "nat \<Rightarrow> 'a list \<Rightarrow> 'a list" where
  "del_expr i ruleset = map snd (filter (\<lambda>(j, rule). i \<noteq> j) (enumerate 0 ruleset))"

text \<open>
  The pruning loop of \<open>RuleDatabase.Add\<close>: the indices \<open>len - 1, ..., 1\<close> are tried in
  this order, the first one whose removal leaves an equivalent conjunction gives
  \<open>del_item\<close>, which \<open>ruleset.remove\<close> deletes (its first occurrence), and the loop
  starts again; it ends when no such index is found.
\<close>

function prune :: "'t equivalence \<Rightarrow> 't rule list \<Rightarrow> 't rule list" where
  "prune equivalent ruleset =
     (case find (\<lambda>i. equivalent ruleset (del_expr i ruleset)) (rev [1..<length ruleset]) of
        None \<Rightarrow> ruleset
      | Some i \<Rightarrow> prune equivalent (remove1 (ruleset ! i) ruleset))"
  by pat_completeness auto
termination
proof (relation "measure (\<lambda>(equivalent, ruleset). length ruleset)")
  show "wf (measure (\<lambda>(equivalent :: 't equivalence, ruleset). length ruleset))" by simp
next
  fix equivalent :: "'t equivalence" and ruleset :: "'t rule list" and i
  assume "find (\<lambda>i. equivalent ruleset (del_expr i ruleset)) (rev [1..<length ruleset]) = Some i"
  then obtain k where "k < length (rev [1..<length ruleset])"
    and "i = rev [1..<length ruleset] ! k"
    unfolding find_Some_iff by blast
  then have "i \<in> set (rev [1..<length ruleset])"
    using nth_mem by blast
  then have mem: "ruleset ! i \<in> set ruleset" by simp
  then have "0 < length ruleset" by (cases ruleset) auto
  with mem have "length (remove1 (ruleset ! i) ruleset) < length ruleset"
    by (simp add: length_remove1)
  then show "((equivalent, remove1 (ruleset ! i) ruleset), (equivalent, ruleset))
             \<in> measure (\<lambda>(equivalent, ruleset). length ruleset)"
    by simp
qed

declare prune.simps [simp del]

text \<open>\<open>RuleDatabase.Add\<close> on the list \<open>ruleset\<close>.\<close>

definition RuleDatabase_Add ::
  "'t equivalence \<Rightarrow> 't rule_expr \<Rightarrow> sign \<Rightarrow> 't rule list \<Rightarrow> 't rule list"
where
  "RuleDatabase_Add equivalent rule sg ruleset =
     (if length ruleset > 50 then ruleset
      else prune equivalent (ruleset @ [(rule, sg)]))"

text \<open>The body of both loops of \<open>inspect_all_records\<close>: \<open>tree.evaluate(val) sign 0\<close>.\<close>

definition check_record ::
  "'t TreeModule \<Rightarrow> 't \<Rightarrow> sign \<Rightarrow> nat list \<Rightarrow> val list \<Rightarrow> error + bool"
where
  "check_record tm tree sg sym_list inputs =
     (case collect_val sym_list inputs of
        Inl e \<Rightarrow> Inl e
      | Inr val \<Rightarrow> (case evaluate tm tree val of Inl e \<Rightarrow> Inl e | Inr v \<Rightarrow> py_rel sg v))"

fun inspect_valid ::
  "'t TreeModule \<Rightarrow> 't \<Rightarrow> sign \<Rightarrow> nat list \<Rightarrow> val list list \<Rightarrow> error + bool"
where
  "inspect_valid tm tree sg sym_list [] = Inr True"
| "inspect_valid tm tree sg sym_list (inputs # rest) =
     (case check_record tm tree sg sym_list inputs of
        Inl e \<Rightarrow> Inl e
      | Inr res \<Rightarrow> if \<not> res then Inr False else inspect_valid tm tree sg sym_list rest)"

fun inspect_invalid ::
  "'t TreeModule \<Rightarrow> 't \<Rightarrow> sign \<Rightarrow> nat list \<Rightarrow> val list list \<Rightarrow> error + bool"
where
  "inspect_invalid tm tree sg sym_list [] = Inr False"
| "inspect_invalid tm tree sg sym_list (inputs # rest) =
     (case check_record tm tree sg sym_list inputs of
        Inl e \<Rightarrow> Inl e
      | Inr res \<Rightarrow> if \<not> res then Inr True else inspect_invalid tm tree sg sym_list rest)"

definition inspect_all_records ::
  "'t TreeModule \<Rightarrow> val list list \<Rightarrow> val list list \<Rightarrow> nat list \<Rightarrow> 't \<Rightarrow> sign \<Rightarrow> error + bool"
where
  "inspect_all_records tm valid_list invalid_list sym_list tree sg =
     (case inspect_valid tm tree sg sym_list valid_list of
        Inl e \<Rightarrow> Inl e
      | Inr ok \<Rightarrow>
          if \<not> ok then Inr False
          else if sg = Eq then Inr True
          else inspect_invalid tm tree sg sym_list invalid_list)"

text \<open>
  The constant constraint test for the symbol \<open>i\<close>: \<open>valid\<close> is whether every success
  input has the value of the first one at \<open>i\<close>.
\<close>

fun constant_valid :: "nat \<Rightarrow> val \<Rightarrow> val list list \<Rightarrow> error + bool" where
  "constant_valid i v [] = Inr True"
| "constant_valid i v (inputs # rest) =
     (if i < length inputs
      then (if inputs ! i \<noteq> v then Inr False else constant_valid i v rest)
      else Inl IndexError)"

text \<open>
  One round of the constant test.  \<open>Add\<close> returns at once when the rule set holds
  more than 50 rules; otherwise it evaluates the text of the rule, and the text
  \<open>s<i>-None\<close> is no arithmetic expression: the evaluation raises.
\<close>

definition constant_test ::
  "'t equivalence \<Rightarrow> val list list \<Rightarrow> nat \<Rightarrow> 't rule list \<Rightarrow> error + 't rule list"
where
  "constant_test equivalent valid_list i ruleset =
     (let v = hd valid_list ! i in
      case constant_valid i v valid_list of
        Inl e \<Rightarrow> Inl e
      | Inr valid \<Rightarrow>
          if valid
          then (if length ruleset > 50 then Inr ruleset
                else (case v of
                        None \<Rightarrow> Inl OtherError
                      | Some c \<Rightarrow>
                          Inr (RuleDatabase_Add equivalent (SymMinusConst i c) Eq ruleset)))
          else Inr ruleset)"

text \<open>The loops over the signs and over the symbol sets for one tree.\<close>

definition try_sign ::
  "'t TreeModule \<Rightarrow> 't equivalence \<Rightarrow> val list list \<Rightarrow> val list list \<Rightarrow> 't \<Rightarrow> nat list \<Rightarrow>
   sign \<Rightarrow> 't rule list \<Rightarrow> error + 't rule list"
where
  "try_sign tm equivalent valid_list invalid_list tree sym_list sg ruleset =
     (case inspect_all_records tm valid_list invalid_list sym_list tree sg of
        Inl e \<Rightarrow> Inl e
      | Inr ok \<Rightarrow>
          Inr (if ok then RuleDatabase_Add equivalent (Remap tree sym_list) sg ruleset
               else ruleset))"

definition try_sym_set ::
  "'t TreeModule \<Rightarrow> 't equivalence \<Rightarrow> val list list \<Rightarrow> val list list \<Rightarrow> 't \<Rightarrow> nat \<Rightarrow>
   nat \<Rightarrow> 't rule list \<Rightarrow> error + 't rule list"
where
  "try_sym_set tm equivalent valid_list invalid_list tree depth sym_set ruleset =
     (let sym_list = mask_to_list sym_set;
          sign_list = (if depth \<le> 1 then [Eq, Gt, Ge] else [Eq])
      in for_loop (try_sign tm equivalent valid_list invalid_list tree sym_list) sign_list ruleset)"

text \<open>
  The loop over the trees.  \<open>expired n\<close> is the answer of the clock test
  \<open>time.time() - start_time > timeout\<close> when \<open>tree_tried\<close> is \<open>n\<close>.
\<close>

fun tree_loop ::
  "'t TreeModule \<Rightarrow> (nat \<Rightarrow> bool) \<Rightarrow> 't equivalence \<Rightarrow> val list list \<Rightarrow> val list list \<Rightarrow>
   nat \<Rightarrow> (nat \<times> nat \<times> nat) list \<Rightarrow> nat \<Rightarrow> 't rule list \<Rightarrow> error + 't rule list"
where
  "tree_loop tm expired equivalent valid_list invalid_list input_len [] tree_tried ruleset =
     Inr ruleset"
| "tree_loop tm expired equivalent valid_list invalid_list input_len ((depth, ArgSet, i) # rest)
     tree_tried ruleset =
     (if expired (tree_tried + 1) then Inr ruleset
      else
        (let tree = getTree tm depth ArgSet i in
         if op tm tree \<notin> {Some ''+'', Some ''-'', None}
         then tree_loop tm expired equivalent valid_list invalid_list input_len rest
                (tree_tried + 1) ruleset
         else
           (case for_loop (try_sym_set tm equivalent valid_list invalid_list tree depth)
                   (gen_sym_set (2 ^ input_len - 1) (popcount ArgSet)) ruleset of
              Inl e \<Rightarrow> Inl e
            | Inr ruleset' \<Rightarrow>
                if length ruleset' \<ge> 50 then Inr ruleset'
                else tree_loop tm expired equivalent valid_list invalid_list input_len rest
                       (tree_tried + 1) ruleset')))"

text \<open>
  \<open>solve_inst\<close> of strict_input_solve.py; \<open>info\<close> is the invocation DB and the result is
  \<open>dd["rules"]\<close>.  The negative samples are the whole fail set.
\<close>

definition strict_solve_inst ::
  "'t TreeModule \<Rightarrow> (nat \<Rightarrow> bool) \<Rightarrow> 't equivalence \<Rightarrow> OpDatabase \<Rightarrow> error + 't rule list"
where
  "strict_solve_inst tm expired equivalent info =
     (let valid_list = map fst (success info);
          invalid_list = fail info
      in case valid_list of
           [] \<Rightarrow> Inl IndexError
         | inputs0 # _ \<Rightarrow>
             (let input_len = length inputs0 in
              case for_loop (constant_test equivalent valid_list) [0..<input_len] [] of
                Inl e \<Rightarrow> Inl e
              | Inr ruleset \<Rightarrow>
                  tree_loop tm expired equivalent valid_list invalid_list input_len
                    (genTreeList tm TreeMaxHeight (min input_len TreeArgCount)) 0 ruleset))"

text \<open>
  The value of \<open>e(inputs) rel 0\<close> for a rule and an input tuple, as the synthesiser
  computes it: the tree of a remapped rule is evaluated on the values at its symbols,
  and \<open>s<i>-<c>\<close> is the value at \<open>i\<close> minus \<open>c\<close>.
\<close>

definition rule_check :: "'t TreeModule \<Rightarrow> 't rule \<Rightarrow> val list \<Rightarrow> error + bool" where
  "rule_check tm r inputs =
     (case fst r of
        SymMinusConst i c \<Rightarrow>
          (if i < length inputs
           then (case inputs ! i of None \<Rightarrow> Inl TypeError | Some x \<Rightarrow> py_rel (snd r) (Some (x - c)))
           else Inl IndexError)
      | Remap tree sym_list \<Rightarrow> check_record tm tree (snd r) sym_list inputs)"

text \<open>
  What an admission has checked: the rule holds on every success input and, when it is
  strict, is false on some fail input.
\<close>

definition admitted_ok :: "'t TreeModule \<Rightarrow> val list list \<Rightarrow> val list list \<Rightarrow> 't rule \<Rightarrow> bool" where
  "admitted_ok tm valid_list invalid_list r \<longleftrightarrow>
     (\<forall>inputs \<in> set valid_list. rule_check tm r inputs = Inr True) \<and>
     (snd r \<noteq> Eq \<longrightarrow> (\<exists>inputs \<in> set invalid_list. rule_check tm r inputs = Inr False))"

section \<open>Shape-rule synthesiser (autoinf/inference/symbl_int_solve.py)\<close>

text \<open>
  An entry of \<open>valid_tree_set[o_id]\<close>: a tree with its symbol set, or the pair
  \<open>(input_len, input_len)\<close> of the input-rank fallback.
\<close>

datatype 't shape_rule = TreeRule 't nat | RankRule nat

text \<open>
  The loop that collects \<open>val\<close> and \<open>haszero\<close> for one record: the comparison
  \<open>inputs[argNum] <= 0\<close> raises on \<open>None\<close>.
\<close>

fun collect_haszero :: "nat list \<Rightarrow> val list \<Rightarrow> error + (val list \<times> bool)" where
  "collect_haszero [] inputs = Inr ([], False)"
| "collect_haszero (argNum # rest) inputs =
     (if argNum < length inputs
      then (case inputs ! argNum of
              None \<Rightarrow> Inl TypeError
            | Some x \<Rightarrow>
                (case collect_haszero rest inputs of
                   Inl e \<Rightarrow> Inl e
                 | Inr (val, haszero) \<Rightarrow> Inr (Some x # val, x \<le> 0 \<or> haszero)))
      else Inl IndexError)"

text \<open>
  The loop over the records for one tree, symbol list and output index.  The result is
  \<open>(valid, at_least_one_record)\<close>; a record without the output \<open>o_id\<close> is passed
  over, a record with a value \<open>\<le> 0\<close> at a chosen symbol is passed over when
  \<open>cfg_zerofilter\<close> is set, and the first record that the tree does not reproduce
  breaks the loop.  \<open>cfg_zerofilter\<close> is a constant of the configuration that is not
  among the sources: a parameter.
\<close>

fun check_records ::
  "'t TreeModule \<Rightarrow> bool \<Rightarrow> 't \<Rightarrow> nat list \<Rightarrow> nat \<Rightarrow> success_record list \<Rightarrow> bool \<Rightarrow>
   error + (bool \<times> bool)"
where
  "check_records tm cfg_zerofilter tree sym_list o_id [] at_least_one_record =
     Inr (True, at_least_one_record)"
| "check_records tm cfg_zerofilter tree sym_list o_id ((inputs, outputs) # rest)
     at_least_one_record =
     (if o_id \<ge> length outputs
      then check_records tm cfg_zerofilter tree sym_list o_id rest at_least_one_record
      else
        (let expectedVal = outputs ! o_id in
         case collect_haszero sym_list inputs of
           Inl e \<Rightarrow> Inl e
         | Inr (val, haszero) \<Rightarrow>
             if \<not> cfg_zerofilter \<or> \<not> haszero
             then (case evaluate tm tree val of
                     Inl e \<Rightarrow> Inl e
                   | Inr v \<Rightarrow>
                       if v \<noteq> expectedVal then Inr (False, True)
                       else check_records tm cfg_zerofilter tree sym_list o_id rest True)
             else check_records tm cfg_zerofilter tree sym_list o_id rest
                    at_least_one_record))"

text \<open>The body of the loop over the symbol sets, on \<open>valid_tree_set\<close>.\<close>

definition try_sym_set_io ::
  "'t TreeModule \<Rightarrow> bool \<Rightarrow> OpDatabase \<Rightarrow> 't \<Rightarrow> nat \<Rightarrow> nat \<Rightarrow> 't shape_rule list list \<Rightarrow>
   error + 't shape_rule list list"
where
  "try_sym_set_io tm cfg_zerofilter OpDB tree o_id sym_set valid_tree_set =
     (if check_duplicate_sym OpDB sym_set then Inr valid_tree_set
      else
        (case check_records tm cfg_zerofilter tree (mask_to_list sym_set) o_id
                (success OpDB) False of
           Inl e \<Rightarrow> Inl e
         | Inr (valid, at_least_one_record) \<Rightarrow>
             Inr (if valid \<and> at_least_one_record
                  then valid_tree_set[o_id := valid_tree_set ! o_id @ [TreeRule tree sym_set]]
                  else valid_tree_set)))"

text \<open>
  The body of the loop over the output indices, on \<open>(valid_tree_set, happen)\<close>: an
  output that has a rule is passed over.
\<close>

definition try_output ::
  "'t TreeModule \<Rightarrow> bool \<Rightarrow> OpDatabase \<Rightarrow> nat \<Rightarrow> 't \<Rightarrow> nat \<Rightarrow> nat \<Rightarrow>
   't shape_rule list list \<times> bool \<Rightarrow> error + ('t shape_rule list list \<times> bool)"
where
  "try_output tm cfg_zerofilter OpDB input_len tree sym_count o_id st =
     (if length (fst st ! o_id) \<ge> 1 then Inr st
      else
        (case for_loop (try_sym_set_io tm cfg_zerofilter OpDB tree o_id)
                (gen_sym_set (2 ^ input_len - 1) sym_count) (fst st) of
           Inl e \<Rightarrow> Inl e
         | Inr valid_tree_set \<Rightarrow> Inr (valid_tree_set, True)))"

text \<open>
  The loop over the trees: it ends when no output was left to try (\<open>happen\<close> is
  false) or when the clock test answers true; \<open>expired n\<close> is its answer when
  \<open>tree_tried\<close> is \<open>n\<close>.
\<close>

fun tree_loop_io ::
  "'t TreeModule \<Rightarrow> bool \<Rightarrow> (nat \<Rightarrow> bool) \<Rightarrow> OpDatabase \<Rightarrow> nat \<Rightarrow> nat \<Rightarrow>
   (nat \<times> nat \<times> nat) list \<Rightarrow> nat \<Rightarrow> 't shape_rule list list \<Rightarrow> error + 't shape_rule list list"
where
  "tree_loop_io tm cfg_zerofilter expired OpDB input_len output_len [] tree_tried
     valid_tree_set = Inr valid_tree_set"
| "tree_loop_io tm cfg_zerofilter expired OpDB input_len output_len ((depth, ArgSet, i) # rest)
     tree_tried valid_tree_set =
     (let tree = getTree tm depth ArgSet i;
          sym_count = popcount ArgSet
      in case for_loop (try_output tm cfg_zerofilter OpDB input_len tree sym_count)
                [0..<output_len] (valid_tree_set, False) of
           Inl e \<Rightarrow> Inl e
         | Inr (valid_tree_set', happen) \<Rightarrow>
             if \<not> happen then Inr valid_tree_set'
             else if expired (tree_tried + 1) then Inr valid_tree_set'
             else tree_loop_io tm cfg_zerofilter expired OpDB input_len output_len rest
                    (tree_tried + 1) valid_tree_set')"

text \<open>
  The input-rank fallback for one output without a rule: \<open>valid\<close> is whether every
  record that has the output \<open>o_id\<close> has the value \<open>input_len\<close> there.
\<close>

fun rank_valid :: "nat \<Rightarrow> nat \<Rightarrow> success_record list \<Rightarrow> bool" where
  "rank_valid input_len o_id [] = True"
| "rank_valid input_len o_id ((inputs, outputs) # rest) =
     (if o_id \<ge> length outputs then rank_valid input_len o_id rest
      else if outputs ! o_id \<noteq> Some (int input_len) then False
      else rank_valid input_len o_id rest)"

definition rank_fallback ::
  "success_record list \<Rightarrow> nat \<Rightarrow> nat \<Rightarrow> 't shape_rule list list \<Rightarrow> 't shape_rule list list"
where
  "rank_fallback record_list input_len o_id valid_tree_set =
     (if length (valid_tree_set ! o_id) \<ge> 1 then valid_tree_set
      else if rank_valid input_len o_id record_list
      then valid_tree_set[o_id := valid_tree_set ! o_id @ [RankRule input_len]]
      else valid_tree_set)"

text \<open>
  \<open>solve_inst\<close> of symbl_int_solve.py on an analysed database; the result is
  \<open>valid_tree_set\<close>, whose entries the rule file prints.
\<close>

definition symbl_solve_inst ::
  "'t TreeModule \<Rightarrow> bool \<Rightarrow> (nat \<Rightarrow> bool) \<Rightarrow> OpDatabase \<Rightarrow> error + 't shape_rule list list"
where
  "symbl_solve_inst tm cfg_zerofilter expired OpDB =
     (let record_list = success OpDB in
      case record_list of
        [] \<Rightarrow> Inl IndexError
      | r0 # _ \<Rightarrow>
          (let input_len = length (fst r0);
               output_len = length (unrelated OpDB)
           in case tree_loop_io tm cfg_zerofilter expired OpDB input_len output_len
                     (genTreeList tm TreeMaxHeight (min input_len TreeArgCount)) 0
                     (replicate output_len []) of
                Inl e \<Rightarrow> Inl e
              | Inr valid_tree_set \<Rightarrow>
                  Inr (fold (rank_fallback record_list input_len) [0..<output_len]
                         valid_tree_set)))"

text \<open>
  What a rule for the output \<open>o_id\<close> says of a success record.  \<open>haszero\<close> is the
  flag of the zero filter; a tree rule predicts the output when the tree evaluated on
  the values at the rule's symbols gives the recorded value.
\<close>

definition haszero :: "nat list \<Rightarrow> val list \<Rightarrow> bool" where
  "haszero sym_list inputs =
     list_ex (\<lambda>argNum. case inputs ! argNum of None \<Rightarrow> False | Some x \<Rightarrow> x \<le> 0) sym_list"

definition predicts :: "'t TreeModule \<Rightarrow> 't \<Rightarrow> nat \<Rightarrow> nat \<Rightarrow> success_record \<Rightarrow> bool" where
  "predicts tm tree sym_set o_id r =
     (case collect_val (mask_to_list sym_set) (fst r) of
        Inl e \<Rightarrow> False
      | Inr val \<Rightarrow> evaluate tm tree val = Inr (snd r ! o_id))"

text \<open>
  What the synthesiser has checked of a rule for the output \<open>o_id\<close>: a tree rule
  predicts every record that has this output and that the zero filter does not pass
  over, and the rank fallback is the value of this output in every record that has it.
\<close>

definition rule_ok ::
  "'t TreeModule \<Rightarrow> bool \<Rightarrow> success_record list \<Rightarrow> nat \<Rightarrow> 't shape_rule \<Rightarrow> bool"
where
  "rule_ok tm cfg_zerofilter record_list o_id rule =
     (case rule of
        TreeRule tree sym_set \<Rightarrow>
          (\<forall>r \<in> set record_list.
             o_id < length (snd r) \<longrightarrow>
             \<not> (cfg_zerofilter \<and> haszero (mask_to_list sym_set) (fst r)) \<longrightarrow>
             predicts tm tree sym_set o_id r)
      | RankRule n \<Rightarrow>
          (\<forall>r \<in> set record_list. o_id < length (snd r) \<longrightarrow> snd r ! o_id = Some (int n)))"

definition all_ok ::
  "'t TreeModule \<Rightarrow> bool \<Rightarrow> success_record list \<Rightarrow> 't shape_rule list list \<Rightarrow> bool"
where
  "all_ok tm cfg_zerofilter record_list valid_tree_set \<longleftrightarrow>
     (\<forall>o_id < length valid_tree_set. \<forall>rule \<in> set (valid_tree_set ! o_id).
        rule_ok tm cfg_zerofilter record_list o_id rule)"

section \<open>Dialect-rule matcher (autoinf/inference/nnsmith_rules.py)\<close>

text \<open>
  A tensor of dynofuzz.abstract.tensor is made from a shape and a dtype
  (\<open>nnsmith_abstensor_from_ai_abstensor\<close>).  A rule class of the registry
  \<open>ATTR_FREE_RULES\<close> is not among the sources; by the spec the registry is opaque and
  provides \<open>n_input\<close>, \<open>n_output\<close>, \<open>requires\<close> and \<open>type_transfer\<close>, which are the
  fields here, for the operator that \<open>solve_inst\<close> instantiates from the class.  On
  concrete tensors a predicate of \<open>requires\<close> is a truth value, so that
  \<open>equivalent(predicate, True)\<close> is the predicate and \<open>equivalent(predicate, False)\<close> its
  negation.  \<open>is_BcastBinaryOp\<close> is the test \<open>op_type == BcastBinaryOp\<close>.
\<close>

type_synonym nn_tensor = "val list \<times> string"

record OpType =
  n_input :: nat
  n_output :: nat
  is_BcastBinaryOp :: bool
  checked_type_transfer :: "nn_tensor list \<Rightarrow> error + nn_tensor list"
  checked_requires :: "nn_tensor list \<Rightarrow> error + bool list"

text \<open>The exceptions that \<open>solve_inst\<close> catches around a rule class's methods.\<close>

definition caught :: "error \<Rightarrow> bool" where
  "caught e \<longleftrightarrow> e = IndexError \<or> e = ConstraintError \<or> e = InternalError"

text \<open>\<open>list_to_dict\<close>: the dictionary \<open>{name0: v0, name1: v1, ...}\<close>.\<close>

definition list_to_dict :: "val list \<Rightarrow> (nat \<Rightarrow> symb) \<Rightarrow> (symb \<rightharpoonup> val)" where
  "list_to_dict target name = map_of (zip (map name [0..<length target]) target)"

text \<open>
  \<open>abs_to_concrete\<close>: each symbol of a shape is replaced by \<open>concrete_values.get\<close> of it,
  which is \<open>None\<close> for a symbol that is no key.
\<close>

definition abs_to_concrete ::
  "symb AbsTensor list \<Rightarrow> (symb \<rightharpoonup> val) \<Rightarrow> val AbsTensor list"
where
  "abs_to_concrete abs_input_tensors concrete_values =
     map (\<lambda>tensor. \<lparr>rank = rank tensor,
                     shape = map (\<lambda>s. case concrete_values s of None \<Rightarrow> None | Some v \<Rightarrow> v)
                               (shape tensor),
                     dtype = dtype tensor\<rparr>)
       abs_input_tensors"

definition nnsmith_abstensor_from_ai_abstensor :: "val AbsTensor \<Rightarrow> nn_tensor" where
  "nnsmith_abstensor_from_ai_abstensor other = (shape other, dtype other)"

text \<open>The argument that both methods of a rule class get for an input tuple.\<close>

definition concrete_inputs :: "OpInstance \<Rightarrow> val list \<Rightarrow> nn_tensor list" where
  "concrete_inputs inst inputs =
     map nnsmith_abstensor_from_ai_abstensor
       (abs_to_concrete (input_tensors inst) (list_to_dict inputs Sym_s))"

text \<open>
  \<open>all(map(lambda x: x >= 0, inputs))\<close>, which stops at the first negative value and
  raises on \<open>None\<close>, and the loop that keeps the fail inputs that pass it.
\<close>

fun all_nonneg :: "val list \<Rightarrow> error + bool" where
  "all_nonneg [] = Inr True"
| "all_nonneg (None # rest) = Inl TypeError"
| "all_nonneg (Some x # rest) = (if x \<ge> 0 then all_nonneg rest else Inr False)"

fun filter_fail :: "val list list \<Rightarrow> error + val list list" where
  "filter_fail [] = Inr []"
| "filter_fail (inputs # rest) =
     (case all_nonneg inputs of
        Inl e \<Rightarrow> Inl e
      | Inr keep \<Rightarrow>
          (case filter_fail rest of
             Inl e \<Rightarrow> Inl e
           | Inr fs \<Rightarrow> Inr (if keep then inputs # fs else fs)))"

text \<open>
  The body of the loop over the success records, for a class whose arities agree with
  the instance: the value is \<open>valid\<close> after the record.  The comparison of the shapes
  reads \<open>concrete_output_tensors[i]\<close> for every \<open>i\<close> below \<open>n_output\<close>, outside the
  \<open>try\<close>.
\<close>

definition check_success :: "OpType \<Rightarrow> OpInstance \<Rightarrow> success_record \<Rightarrow> error + bool" where
  "check_success op_type inst r =
     (let concrete_input_tensors = concrete_inputs inst (fst r);
          n_out = length (output_tensors inst)
      in case checked_type_transfer op_type concrete_input_tensors of
           Inl e \<Rightarrow> if caught e then Inr False else Inl e
         | Inr concrete_output_tensors \<Rightarrow>
             (let std_output_tensors =
                    abs_to_concrete (output_tensors inst) (list_to_dict (snd r) Sym_o)
              in if length concrete_output_tensors < n_out then Inl IndexError
                 else if list_ex (\<lambda>i. fst (concrete_output_tensors ! i)
                                       \<noteq> shape (std_output_tensors ! i)) [0..<n_out]
                 then Inr False
                 else (case checked_requires op_type concrete_input_tensors of
                         Inl e \<Rightarrow> if caught e then Inr False else Inl e
                       | Inr predicates \<Rightarrow> Inr (list_all (\<lambda>p. p) predicates))))"

fun success_loop :: "OpType \<Rightarrow> OpInstance \<Rightarrow> success_record list \<Rightarrow> error + bool" where
  "success_loop op_type inst [] = Inr True"
| "success_loop op_type inst (r # rest) =
     (case check_success op_type inst r of
        Inl e \<Rightarrow> Inl e
      | Inr valid \<Rightarrow> if \<not> valid then Inr False else success_loop op_type inst rest)"

text \<open>
  The additional check for \<open>BcastBinaryOp\<close>.  \<open>has_one\<close> is the search for a value 1
  among the first \<open>shape_len\<close> inputs, \<open>find_no_one\<close> the search for the first success
  input without one; then each shape symbol in turn is set to 1 and the operator is run
  by the oracle \<open>input_validity_test\<close>, here from the assignment to the outputs or
  \<open>None\<close>.
\<close>

fun has_one :: "val list \<Rightarrow> nat list \<Rightarrow> error + bool" where
  "has_one inputs [] = Inr False"
| "has_one inputs (i # rest) =
     (if i < length inputs
      then (if inputs ! i = Some 1 then Inr True else has_one inputs rest)
      else Inl IndexError)"

fun find_no_one :: "nat \<Rightarrow> success_record list \<Rightarrow> error + val list option" where
  "find_no_one shape_len [] = Inr None"
| "find_no_one shape_len (r # rest) =
     (case has_one (fst r) [0..<shape_len] of
        Inl e \<Rightarrow> Inl e
      | Inr one \<Rightarrow> if \<not> one then Inr (Some (fst r)) else find_no_one shape_len rest)"

fun bcast_probes :: "(val list \<Rightarrow> val list option) \<Rightarrow> val list \<Rightarrow> symb list \<Rightarrow> error + bool" where
  "bcast_probes oracle input_dict [] = Inr True"
| "bcast_probes oracle input_dict (Sym_o k # rest) = Inl KeyError"
| "bcast_probes oracle input_dict (Sym_s k # rest) =
     (if k < length input_dict
      then (if oracle (input_dict[k := Some 1]) = None then Inr False
            else bcast_probes oracle input_dict rest)
      else Inl KeyError)"

definition bcast_check ::
  "(val list \<Rightarrow> val list option) \<Rightarrow> OpInstance \<Rightarrow> success_record list \<Rightarrow> error + bool"
where
  "bcast_check oracle inst success_list =
     (case find_no_one (length (I inst)) success_list of
        Inl e \<Rightarrow> Inl e
      | Inr None \<Rightarrow> Inr True
      | Inr (Some input_dict) \<Rightarrow> bcast_probes oracle input_dict (I inst))"

text \<open>
  The loop over the fail inputs: an input is a counterexample of the operator when
  \<open>checked_requires\<close> raises one of the caught exceptions or a predicate is false.
\<close>

fun fail_loop :: "OpType \<Rightarrow> OpInstance \<Rightarrow> val list list \<Rightarrow> error + bool" where
  "fail_loop op_type inst [] = Inr True"
| "fail_loop op_type inst (inputs # rest) =
     (case checked_requires op_type (concrete_inputs inst inputs) of
        Inl e \<Rightarrow> if caught e then fail_loop op_type inst rest else Inl e
      | Inr predicates \<Rightarrow>
          if list_ex (\<lambda>p. \<not> p) predicates then fail_loop op_type inst rest else Inr False)"

text \<open>The value of \<open>valid\<close> for one rule class whose arities agree.\<close>

definition class_valid ::
  "(val list \<Rightarrow> val list option) \<Rightarrow> OpInstance \<Rightarrow> success_record list \<Rightarrow> val list list \<Rightarrow>
   OpType \<Rightarrow> error + bool"
where
  "class_valid oracle inst success_list fail_list op_type =
     (case success_loop op_type inst success_list of
        Inl e \<Rightarrow> Inl e
      | Inr valid1 \<Rightarrow>
          (case (if is_BcastBinaryOp op_type then bcast_check oracle inst success_list
                 else Inr True) of
             Inl e \<Rightarrow> Inl e
           | Inr probes_ok \<Rightarrow>
               if valid1 \<and> probes_ok then fail_loop op_type inst fail_list else Inr False))"

text \<open>
  The loop over the registry: the index of a valid class is appended to \<open>res\<close> and the
  loop breaks.
\<close>

fun rules_loop ::
  "(val list \<Rightarrow> val list option) \<Rightarrow> OpInstance \<Rightarrow> success_record list \<Rightarrow> val list list \<Rightarrow>
   (nat \<times> OpType) list \<Rightarrow> error + nat list"
where
  "rules_loop oracle inst success_list fail_list [] = Inr []"
| "rules_loop oracle inst success_list fail_list ((ind, op_type) # rest) =
     (if n_input op_type = length (input_tensors inst)
         \<and> n_output op_type = length (output_tensors inst)
      then (case class_valid oracle inst success_list fail_list op_type of
              Inl e \<Rightarrow> Inl e
            | Inr valid \<Rightarrow>
                if valid then Inr [ind]
                else rules_loop oracle inst success_list fail_list rest)
      else rules_loop oracle inst success_list fail_list rest)"

text \<open>
  \<open>solve_inst\<close> of nnsmith_rules.py; \<open>success_list\<close> and \<open>fail_all\<close> are the success and
  fail invocations of the instance, and the result is the list \<open>res\<close> that is written
  to the rule file.
\<close>

definition nnsmith_solve_inst ::
  "OpType list \<Rightarrow> (val list \<Rightarrow> val list option) \<Rightarrow> OpInstance \<Rightarrow> success_record list \<Rightarrow>
   val list list \<Rightarrow> error + nat list"
where
  "nnsmith_solve_inst ATTR_FREE_RULES oracle inst success_list fail_all =
     (case filter_fail fail_all of
        Inl e \<Rightarrow> Inl e
      | Inr fail_list \<Rightarrow>
          rules_loop oracle inst success_list fail_list (enumerate 0 ATTR_FREE_RULES))"

text \<open>
  The match criterion in the words of the claim, with what the code adds to it: a
  class accepts a success record when \<open>type_transfer\<close> returns the recorded output
  shapes and every predicate of \<open>requires\<close> holds; it rejects a fail input when
  \<open>requires\<close> raises a caught exception or some predicate is false; the class of the
  broadcast operators must also pass the probes with a shape symbol set to 1.
\<close>

definition accepts :: "OpType \<Rightarrow> OpInstance \<Rightarrow> success_record \<Rightarrow> bool" where
  "accepts op_type inst r \<longleftrightarrow>
     (\<exists>outs. checked_type_transfer op_type (concrete_inputs inst (fst r)) = Inr outs
        \<and> length (output_tensors inst) \<le> length outs
        \<and> (\<forall>i < length (output_tensors inst).
              fst (outs ! i)
              = shape (abs_to_concrete (output_tensors inst) (list_to_dict (snd r) Sym_o) ! i)))
     \<and> (\<exists>predicates. checked_requires op_type (concrete_inputs inst (fst r)) = Inr predicates
           \<and> (\<forall>p \<in> set predicates. p))"

definition rejects :: "OpType \<Rightarrow> OpInstance \<Rightarrow> val list \<Rightarrow> bool" where
  "rejects op_type inst inputs \<longleftrightarrow>
     (\<exists>e. checked_requires op_type (concrete_inputs inst inputs) = Inl e \<and> caught e)
     \<or> (\<exists>predicates. checked_requires op_type (concrete_inputs inst inputs) = Inr predicates
           \<and> (\<exists>p \<in> set predicates. \<not> p))"

definition matches ::
  "(val list \<Rightarrow> val list option) \<Rightarrow> OpInstance \<Rightarrow> success_record list \<Rightarrow> val list list \<Rightarrow>
   OpType \<Rightarrow> bool"
where
  "matches oracle inst success_list fail_list op_type \<longleftrightarrow>
     n_input op_type = length (input_tensors inst)
     \<and> n_output op_type = length (output_tensors inst)
     \<and> (\<forall>r \<in> set success_list. accepts op_type inst r)
     \<and> (\<forall>inputs \<in> set fail_list. rejects op_type inst inputs)
     \<and> (is_BcastBinaryOp op_type \<longrightarrow> bcast_check oracle inst success_list = Inr True)"

section \<open>Graph generator (dynofuzz/graph_gen.py)\<close>

text \<open>
  Modelled from the spec: the modules dynofuzz.gir and dynofuzz.abstract (\<open>GraphIR\<close>,
  \<open>InstIR\<close>, \<open>AbsTensor\<close>, \<open>Placeholder\<close>) are not among the sources.  By the spec the
  graph IR is a list of instructions, each with an operator and a tuple of input
  variable names and producing output variables; the IR maps the variable names to
  abstract tensors; placeholders are a distinguished operator kind, standing for graph
  inputs or tensors yet to be occupied.  A variable name encodes the instruction that
  returns it and the position of the value (\<open>InstIR.var_inst_idx\<close>), so it is this pair.
  The tensors here have concrete shapes, as in the concolic and record-matched
  generators.
\<close>

record tensor_type =
  dims :: "int list"
  elem_type :: string

definition nelement :: "tensor_type \<Rightarrow> int" where
  "nelement atensor = prod_list (dims atensor)"

datatype op_kind = Placeholder | Input | Constant | Compute string

record AbsOpBase =
  kind :: op_kind
  input_like :: "tensor_type list"
  output_like :: "tensor_type list"

definition Placeholder_op :: "tensor_type \<Rightarrow> AbsOpBase" where
  "Placeholder_op ttype = \<lparr>kind = Placeholder, input_like = [], output_like = [ttype]\<rparr>"

type_synonym var = "nat \<times> nat"

record InstIR =
  inst_id :: nat
  iexpr_op :: AbsOpBase
  iexpr_args :: "var list"

definition retvals :: "InstIR \<Rightarrow> var list" where
  "retvals inst = map (Pair (inst_id inst)) [0..<length (output_like (iexpr_op inst))]"

definition retval :: "InstIR \<Rightarrow> var" where
  "retval inst = (inst_id inst, 0)"

record GraphIR =
  insts :: "InstIR list"
  vars :: "(var \<times> tensor_type) list"
  fresh_id :: nat

definition GraphIR_init :: GraphIR where
  "GraphIR_init = \<lparr>insts = [], vars = [], fresh_id = 0\<rparr>"

definition add_inst :: "GraphIR \<Rightarrow> AbsOpBase \<Rightarrow> var list \<Rightarrow> InstIR \<times> GraphIR" where
  "add_inst g node args =
     (let inst = \<lparr>inst_id = fresh_id g, iexpr_op = node, iexpr_args = args\<rparr>
      in (inst, g\<lparr>insts := insts g @ [inst],
                  vars := vars g @ zip (retvals inst) (output_like node),
                  fresh_id := fresh_id g + 1\<rparr>))"

fun is_compute :: "op_kind \<Rightarrow> bool" where
  "is_compute (Compute name) = True"
| "is_compute other = False"

definition n_compute_inst :: "GraphIR \<Rightarrow> nat" where
  "n_compute_inst g = length (filter (\<lambda>inst. is_compute (kind (iexpr_op inst))) (insts g))"

text \<open>
  The generator state of \<open>BaseGen\<close>: the IR, the names of the current placeholders, the
  size cap and the state of the random source, whose type is a parameter.
\<close>

record 'r BaseGen =
  ir :: GraphIR
  placeholders :: "var list"
  max_elem_per_tensor :: int
  rng :: 'r

text \<open>\<open>BaseGen.__init__\<close> with the default size cap.\<close>

definition BaseGen_init :: "'r \<Rightarrow> 'r BaseGen" where
  "BaseGen_init seed =
     \<lparr>ir = GraphIR_init, placeholders = [], max_elem_per_tensor = 2 ^ 16, rng = seed\<rparr>"


text \<open>\<open>BaseGen.num_op\<close>: placeholders are not counted.\<close>

definition num_op :: "'r BaseGen \<Rightarrow> nat" where
  "num_op gen = n_compute_inst (ir gen)"

text \<open>\<open>BaseGen.forward_insert_node\<close>.\<close>

definition forward_insert_node ::
  "AbsOpBase \<Rightarrow> var list \<Rightarrow> 'r BaseGen \<Rightarrow> InstIR \<times> 'r BaseGen"
where
  "forward_insert_node node input_vars gen =
     (let (new_inst, ir') = add_inst (ir gen) node input_vars;
          gen' = gen\<lparr>ir := ir'\<rparr>
      in (new_inst,
          if kind node = Placeholder
          then gen'\<lparr>placeholders := placeholders gen' @ [retval new_inst]\<rparr>
          else gen'))"

text \<open>
  \<open>BaseGen.insert_init_ph_node\<close> in the concolic generator, where \<open>assume\<close> is
  \<open>ConstraintCheck.true\<close>: a concrete dimension must not be negative.
\<close>

definition insert_init_ph_node :: "tensor_type \<Rightarrow> 'r BaseGen \<Rightarrow> error + 'r BaseGen" where
  "insert_init_ph_node ttype gen =
     (let (inst, gen') = forward_insert_node (Placeholder_op ttype) [] gen
      in if list_all (\<lambda>d. 0 \<le> d) (dims ttype) then Inr gen' else Inl ConstraintError)"

text \<open>
  The loop of \<open>BaseGen.abstract_gen\<close>.  \<open>budget\<close> is the number of times that the clock
  test \<open>time.time() - init_time < max_gen_millisec / 1000\<close> answers true before it answers
  false.  \<open>try_insert\<close> and \<open>extra_exit_check\<close> are the methods of the subclass.
\<close>

fun gen_loop ::
  "('r BaseGen \<Rightarrow> 'r BaseGen) \<Rightarrow> (nat \<Rightarrow> 'r BaseGen \<Rightarrow> bool) \<Rightarrow> nat \<Rightarrow> nat \<Rightarrow> 'r BaseGen \<Rightarrow>
   'r BaseGen"
where
  "gen_loop try_insert extra_exit_check max_node_size 0 gen = gen"
| "gen_loop try_insert extra_exit_check max_node_size (Suc budget) gen =
     (if num_op gen < max_node_size
      then (if extra_exit_check max_node_size gen then gen
            else gen_loop try_insert extra_exit_check max_node_size budget (try_insert gen))
      else gen)"

text \<open>
  \<open>determine_ph_type\<close>: the operator of the placeholder's instruction becomes an input
  or a constant.
\<close>

definition determine_ph_type :: "var \<Rightarrow> bool \<Rightarrow> 'r BaseGen \<Rightarrow> 'r BaseGen" where
  "determine_ph_type ph to_input gen =
     gen\<lparr>ir := (ir gen)\<lparr>insts :=
       map (\<lambda>inst. if inst_id inst = fst ph
                    then inst\<lparr>iexpr_op := (iexpr_op inst)\<lparr>kind := (if to_input then Input else Constant)\<rparr>\<rparr>
                    else inst)
         (insts (ir gen))\<rparr>\<rparr>"

text \<open>
  The loop over \<open>placeholders[1:]\<close>; \<open>randint01\<close> is \<open>random.randint(0, 1)\<close> on the state of
  the random source.
\<close>

fun determine_rest :: "('r \<Rightarrow> bool \<times> 'r) \<Rightarrow> var list \<Rightarrow> 'r BaseGen \<Rightarrow> 'r BaseGen" where
  "determine_rest randint01 [] gen = gen"
| "determine_rest randint01 (ph # phs) gen =
     (let (to_input, r) = randint01 (rng gen)
      in determine_rest randint01 phs (determine_ph_type ph to_input (gen\<lparr>rng := r\<rparr>)))"

text \<open>\<open>BaseGen.abstract_gen\<close>.\<close>

definition abstract_gen ::
  "('r BaseGen \<Rightarrow> 'r BaseGen) \<Rightarrow> (nat \<Rightarrow> 'r BaseGen \<Rightarrow> bool) \<Rightarrow> ('r \<Rightarrow> bool \<times> 'r) \<Rightarrow>
   nat \<Rightarrow> nat \<Rightarrow> 'r BaseGen \<Rightarrow> error + 'r BaseGen"
where
  "abstract_gen try_insert extra_exit_check randint01 max_node_size budget gen =
     (if \<not> max_node_size > 0 then Inl AssertionError
      else
        (let gen1 = gen_loop try_insert extra_exit_check max_node_size budget gen in
         case placeholders gen1 of
           [] \<Rightarrow> Inl SanityError
         | ph # phs \<Rightarrow> Inr (determine_rest randint01 phs (determine_ph_type ph True gen1))))"

text \<open>
  What the end of \<open>abstract_gen\<close> does to the IR \<open>g0\<close> of the end of the loop, with
  the placeholders \<open>ph # phs\<close>: the variables and, position by position, the
  instructions stay, with their identifiers, arguments and tensor types; the instruction
  of the first placeholder has become an input, unless a later placeholder names that
  instruction too, those of the other placeholders inputs or constants, and every other
  instruction keeps the kind of its operator.
\<close>

definition finalised :: "var \<Rightarrow> var list \<Rightarrow> GraphIR \<Rightarrow> GraphIR \<Rightarrow> bool" where
  "finalised ph phs g0 g \<longleftrightarrow>
     vars g = vars g0 \<and> length (insts g) = length (insts g0)
     \<and> (\<forall>n < length (insts g0).
          inst_id (insts g ! n) = inst_id (insts g0 ! n)
          \<and> iexpr_args (insts g ! n) = iexpr_args (insts g0 ! n)
          \<and> input_like (iexpr_op (insts g ! n)) = input_like (iexpr_op (insts g0 ! n))
          \<and> output_like (iexpr_op (insts g ! n)) = output_like (iexpr_op (insts g0 ! n))
          \<and> (inst_id (insts g0 ! n) = fst ph \<and> fst ph \<notin> fst ` set phs
               \<longrightarrow> kind (iexpr_op (insts g ! n)) = Input)
          \<and> (inst_id (insts g0 ! n) \<in> fst ` set (ph # phs)
               \<longrightarrow> kind (iexpr_op (insts g ! n)) \<in> {Input, Constant})
          \<and> (inst_id (insts g0 ! n) \<notin> fst ` set (ph # phs)
               \<longrightarrow> kind (iexpr_op (insts g ! n)) = kind (iexpr_op (insts g0 ! n))))"

text \<open>
  The record finder of the record-matched generators: the operator types recorded under
  a tensor type in \<open>producer\<close> and in \<open>consumer\<close>, and the records
  \<open>(itensors, otensors)\<close> of an operator type.  An operator type is named by a string.
  The attributes of a record have no part in the tensors of the IR and are left out.
\<close>

record OpRecordFinder =
  producer :: "(tensor_type \<times> string list) list"
  consumer :: "(tensor_type \<times> string list) list"
  op2record :: "(string \<times> (tensor_type list \<times> tensor_type list) list) list"

text \<open>
  \<open>make_record_finder\<close>, from the copy in autoinf/eval/count_collection.py (the module
  dynofuzz.autoinf, from which the command line imports it, is not among the sources;
  the copy builds the three dictionaries and ends by counting them).  A dictionary is
  the list of its items in the order of insertion.  \<open>dict_add\<close> is
  \<open>l = d.setdefault(k, []); if v not in l: l.append(v)\<close>, and \<open>dict_append\<close> is
  \<open>d.setdefault(k, []).append(v)\<close>.
\<close>

definition dict_append :: "'k \<Rightarrow> 'v \<Rightarrow> ('k \<times> 'v list) list \<Rightarrow> ('k \<times> 'v list) list" where
  "dict_append k v d =
     (case map_of d k of
        None \<Rightarrow> d @ [(k, [v])]
      | Some vs \<Rightarrow> map (\<lambda>(k', vs'). if k' = k then (k', vs' @ [v]) else (k', vs')) d)"

definition dict_add :: "'k \<Rightarrow> 'v \<Rightarrow> ('k \<times> 'v list) list \<Rightarrow> ('k \<times> 'v list) list" where
  "dict_add k v d =
     (case map_of d k of
        None \<Rightarrow> d @ [(k, [v])]
      | Some vs \<Rightarrow> if v \<in> set vs then d else dict_append k v d)"

definition blacklist :: "string list" where
  "blacklist =
     [''torch.gather'', ''torch.nanquantile'', ''torch.Tensor.resize_as_'',
      ''torch.Tensor.rename'', ''torch.Tensor.rename_'', ''torch.Tensor.uniform_'',
      ''torch.Tensor.normal_'', ''torch.Tensor.exponential_'', ''torch.Tensor.poisson_'',
      ''torch.Tensor.geometric_'', ''torch.Tensor.log_normal_'', ''torch.Tensor.cauchy_'',
      ''torch.Tensor.logistic_'', ''torch.Tensor.random_'', ''torch.Tensor.requires_grad_'',
      ''torch.nn.functional.dropout'', ''torch.nn.functional.dropout2d'',
      ''torch.nn.functional.dropout3d'']"

text \<open>
  A record as the loop meets it: the list of the input tensors and the list of the
  output tensors that the substitution of the record's values gives, each \<open>Inl\<close> when
  the substitution raises.  The loop over the records of one operator type skips a
  record with a bad substitution and a record in which a tensor has more than
  \<open>max_elem_per_tensor\<close> elements.
\<close>

type_synonym raw_record = "(error + tensor_type list) \<times> (error + tensor_type list)"

fun record_loop :: "int \<Rightarrow> string \<Rightarrow> raw_record list \<Rightarrow> OpRecordFinder \<Rightarrow> OpRecordFinder" where
  "record_loop cap inst [] rf = rf"
| "record_loop cap inst ((inputs, outputs) # rest) rf =
     (case inputs of
        Inl e \<Rightarrow> record_loop cap inst rest rf
      | Inr input_abs_tensor \<Rightarrow>
          if list_ex (\<lambda>x. nelement x > cap) input_abs_tensor then record_loop cap inst rest rf
          else
            (case outputs of
               Inl e \<Rightarrow> record_loop cap inst rest rf
             | Inr output_abs_tensor \<Rightarrow>
                 if list_ex (\<lambda>x. nelement x > cap) output_abs_tensor
                 then record_loop cap inst rest rf
                 else record_loop cap inst rest
                        (rf\<lparr>producer := fold (\<lambda>iten. dict_add iten inst) input_abs_tensor (producer rf),
                            consumer := fold (\<lambda>oten. dict_add oten inst) output_abs_tensor (consumer rf),
                            op2record :=
                              dict_append inst (input_abs_tensor, output_abs_tensor) (op2record rf)\<rparr>)))"

definition make_record_finder :: "int \<Rightarrow> (string \<times> raw_record list) list \<Rightarrow> OpRecordFinder" where
  "make_record_finder cap gen_inst_records =
     fold (\<lambda>(inst, records) rf.
             if inst \<in> set blacklist then rf else record_loop cap inst records rf)
       gen_inst_records \<lparr>producer = [], consumer = [], op2record = []\<rparr>"

text \<open>
  \<open>DynoFuzzR.try_concrete_forward_insert_op\<close>.  The first loop picks a variable of each
  input type and breaks at a type that no variable has; \<open>choice\<close> is \<open>random.choice\<close>.
\<close>

fun pick_ivars ::
  "('r \<Rightarrow> var list \<Rightarrow> var \<times> 'r) \<Rightarrow> (tensor_type \<times> var list) list \<Rightarrow> tensor_type list \<Rightarrow> 'r \<Rightarrow>
   var list \<times> 'r"
where
  "pick_ivars choice type2vars [] r = ([], r)"
| "pick_ivars choice type2vars (it # rest) r =
     (case map_of type2vars it of
        None \<Rightarrow> ([], r)
      | Some vs \<Rightarrow>
          (let (v, r1) = choice r vs;
               (ivars, r2) = pick_ivars choice type2vars rest r1
           in (v # ivars, r2)))"

definition try_concrete_forward_insert_op ::
  "('r \<Rightarrow> var list \<Rightarrow> var \<times> 'r) \<Rightarrow> (tensor_type \<times> var list) list \<Rightarrow> AbsOpBase \<Rightarrow>
   tensor_type list \<Rightarrow> tensor_type list \<Rightarrow> 'r BaseGen \<Rightarrow> bool \<times> 'r BaseGen"
where
  "try_concrete_forward_insert_op choice type2vars node itensors otensors gen =
     (let (ivars, r) = pick_ivars choice type2vars itensors (rng gen);
          gen1 = gen\<lparr>rng := r\<rparr>
      in if length ivars = length itensors
         then (True, snd (forward_insert_node
                            (node\<lparr>input_like := itensors, output_like := otensors\<rparr>) ivars gen1))
         else (False, gen1))"

text \<open>
  \<open>type2vars\<close> of \<open>try_concrete_insert_forward\<close>: the variables of the IR grouped by
  their tensor type, in the order of the IR.
\<close>

definition type2vars_of :: "GraphIR \<Rightarrow> (tensor_type \<times> var list) list" where
  "type2vars_of g =
     fold (\<lambda>(k, v) d. case map_of d v of
                         None \<Rightarrow> d @ [(v, [k])]
                       | Some ks \<Rightarrow> map (\<lambda>(t, ts). if t = v then (t, ts @ [k]) else (t, ts)) d)
       (vars g) []"

text \<open>
  The search of \<open>try_concrete_insert_forward\<close> through the records of the operator
  types: the first record that can be inserted ends it.  Every operator type of
  \<open>consumer\<close> is taken to be a key of \<open>op2record\<close>, as the record finder builds them.
\<close>

fun try_records ::
  "('r \<Rightarrow> var list \<Rightarrow> var \<times> 'r) \<Rightarrow> (tensor_type \<times> var list) list \<Rightarrow>
   (string \<times> tensor_type list \<times> tensor_type list) list \<Rightarrow> 'r BaseGen \<Rightarrow> bool \<times> 'r BaseGen"
where
  "try_records choice type2vars [] gen = (False, gen)"
| "try_records choice type2vars ((op_type, itensors, otensors) # rest) gen =
     (let (done, gen1) =
            try_concrete_forward_insert_op choice type2vars
              \<lparr>kind = Compute op_type, input_like = [], output_like = []\<rparr> itensors otensors gen
      in if done then (True, gen1) else try_records choice type2vars rest gen1)"

text \<open>
  \<open>DynoFuzzR.try_concrete_insert_forward\<close>; \<open>shuffle\<close> is \<open>random.shuffle\<close>.  No
  step of it looks at \<open>tensor_type_constraints\<close>.
\<close>

definition try_concrete_insert_forward ::
  "('r \<Rightarrow> var list \<Rightarrow> var \<times> 'r) \<Rightarrow> ('r \<Rightarrow> string list \<Rightarrow> string list \<times> 'r) \<Rightarrow>
   OpRecordFinder \<Rightarrow> 'r BaseGen \<Rightarrow> bool \<times> 'r BaseGen"
where
  "try_concrete_insert_forward choice shuffle record_finder gen =
     (let type2vars = type2vars_of (ir gen);
          op_types = fold (\<lambda>(v, ks) acc.
                        fold (\<lambda>ot acc1. if ot \<notin> set acc1 then acc1 @ [ot] else acc1)
                          (case map_of (consumer record_finder) v of None \<Rightarrow> [] | Some ots \<Rightarrow> ots)
                          acc)
                      type2vars [];
          (shuffled, r) = shuffle (rng gen) op_types;
          records = concat (map (\<lambda>op_type.
                      map (\<lambda>(itensors, otensors). (op_type, itensors, otensors))
                        (case map_of (op2record record_finder) op_type of
                           None \<Rightarrow> [] | Some recs \<Rightarrow> recs))
                      shuffled)
      in try_records choice type2vars records (gen\<lparr>rng := r\<rparr>))"



















text \<open>
  \<open>DynoFuzzR.__init__\<close>: the first node is a placeholder inserted by
  \<open>forward_insert_node\<close>; its tensor, which \<open>make_random_concrete_placeholder\<close> draws
  from the records, is a parameter.
\<close>

definition DynoFuzzR_init :: "tensor_type \<Rightarrow> 'r \<Rightarrow> 'r BaseGen" where
  "DynoFuzzR_init ttype seed = snd (forward_insert_node (Placeholder_op ttype) [] (BaseGen_init seed))"

section \<open>An expression tree type and examples\<close>

text \<open>
  Modelled from the spec: the class \<open>ArithExpTree\<close> of autoinf.inference.tree is not
  among the sources.  The spec's expression tree has the literals and the argument
  placeholders \<open>s0, s1, ...\<close> as leaves and binary operators as inner nodes; division
  is left out, as where strict_input_solve.py builds its tree database
  (\<open>EnableDiv=False\<close>).  A leaf has the operator \<open>None\<close>.  Evaluation reads the slot \<open>k\<close>
  at position \<open>k\<close> of the value list, and arithmetic on \<open>None\<close> raises.  The theorems
  below that hold of every tree module take the module as a parameter; this type serves
  the examples.
\<close>

datatype ArithExpTree = Const int | Arg nat | Bin string ArithExpTree ArithExpTree

fun tree_op :: "ArithExpTree \<Rightarrow> string option" where
  "tree_op (Const c) = None"
| "tree_op (Arg k) = None"
| "tree_op (Bin f l r) = Some f"

fun tree_evaluate :: "ArithExpTree \<Rightarrow> val list \<Rightarrow> error + val" where
  "tree_evaluate (Const c) val = Inr (Some c)"
| "tree_evaluate (Arg k) val = (if k < length val then Inr (val ! k) else Inl IndexError)"
| "tree_evaluate (Bin f l r) val =
     (case tree_evaluate l val of
        Inl e \<Rightarrow> Inl e
      | Inr None \<Rightarrow> (case tree_evaluate r val of Inl e \<Rightarrow> Inl e | Inr b \<Rightarrow> Inl TypeError)
      | Inr (Some a) \<Rightarrow>
          (case tree_evaluate r val of
             Inl e \<Rightarrow> Inl e
           | Inr None \<Rightarrow> Inl TypeError
           | Inr (Some b) \<Rightarrow>
               if f = ''+'' then Inr (Some (a + b))
               else if f = ''-'' then Inr (Some (a - b))
               else if f = ''*'' then Inr (Some (a * b))
               else Inl OtherError))"

text \<open>
  An example tree database: the trees \<open>1\<close>, \<open>2\<close>, \<open>s0\<close>, \<open>s0-1\<close> and \<open>s0-s1\<close> in the
  order of the enumeration (height, then number of arguments).
\<close>

definition example_slots :: "(nat \<times> nat \<times> nat) list" where
  "example_slots = [(0, 0, 0), (0, 0, 1), (0, 1, 0), (1, 1, 0), (1, 3, 0)]"

fun example_getTree :: "nat \<Rightarrow> nat \<Rightarrow> nat \<Rightarrow> ArithExpTree" where
  "example_getTree depth ArgSet i =
     (if (depth, ArgSet, i) = (0, 0, 0) then Const 1
      else if (depth, ArgSet, i) = (0, 0, 1) then Const 2
      else if (depth, ArgSet, i) = (0, 1, 0) then Arg 0
      else if (depth, ArgSet, i) = (1, 1, 0) then Bin ''-'' (Arg 0) (Const 1)
      else Bin ''-'' (Arg 0) (Arg 1))"

definition example_TreeDB :: "ArithExpTree TreeModule" where
  "example_TreeDB =
     \<lparr>genTreeList = (\<lambda>maxHeight argCount.
          filter (\<lambda>(depth, ArgSet, i). depth \<le> maxHeight \<and> ArgSet < 2 ^ argCount) example_slots),
      getTree = example_getTree,
      op = tree_op,
      evaluate = tree_evaluate\<rparr>"

text \<open>
  Modelled from the spec: \<open>equivalent\<close> of autoinf.inference.utils is not among the
  sources; by the spec it is true iff \<open>f \<longleftrightarrow> g\<close> is a tautology.  A rule is a formula
  over the integer variables \<open>s0, s1, ...\<close>, and \<open>conjunction\<close> is the formula of a rule
  list.
\<close>

definition rule_formula :: "ArithExpTree rule \<Rightarrow> (nat \<Rightarrow> int) \<Rightarrow> bool" where
  "rule_formula r env =
     (case fst r of
        SymMinusConst i c \<Rightarrow> py_rel (snd r) (Some (env i - c)) = Inr True
      | Remap tree sym_list \<Rightarrow>
          (case tree_evaluate tree (map (\<lambda>k. Some (env k)) sym_list) of
             Inl e \<Rightarrow> False
           | Inr v \<Rightarrow> py_rel (snd r) v = Inr True))"

definition conjunction :: "ArithExpTree rule list \<Rightarrow> (nat \<Rightarrow> int) \<Rightarrow> bool" where
  "conjunction rules env = list_all (\<lambda>r. rule_formula r env) rules"

definition equivalent_ideal :: "ArithExpTree equivalence" where
  "equivalent_ideal f g = (\<forall>env. conjunction f env = conjunction g env)"

text \<open>
  The test \<open>all(map(lambda x: x >= 0, inputs))\<close> that nnsmith_rules.py applies to the
  fail inputs, on integer values.
\<close>

definition nonneg_inputs :: "val list \<Rightarrow> bool" where
  "nonneg_inputs inputs = list_all (\<lambda>v. case v of None \<Rightarrow> False | Some x \<Rightarrow> 0 \<le> x) inputs"

text \<open>Two example databases of an operator with one input symbol.\<close>

definition db_B :: OpDatabase where
  "db_B = OpDatabase_init\<lparr>success := [([Some 1], [Some 1]), ([Some 2], [Some 2])],
                          fail := [[Some (- 2)]]\<rparr>"

definition db_A :: OpDatabase where
  "db_A = OpDatabase_init\<lparr>success := [([Some 2], [Some 2]), ([Some 3], [Some 3])],
                          fail := [[Some 0], [Some 1]]\<rparr>"

text \<open>
  An example database with a success record whose input is 0, before and after
  \<open>analyze_symbol\<close>.
\<close>

definition db_Z0 :: OpDatabase where
  "db_Z0 = OpDatabase_init\<lparr>success := [([Some 0], [Some 5]), ([Some 3], [Some 3])]\<rparr>"

definition db_Z :: OpDatabase where
  "db_Z = db_Z0\<lparr>related := [{0}], unrelated := [{}]\<rparr>"

text \<open>
  Examples for the graph generator: a tensor of 4 and one of \<open>32768 * 4 = 2 ^ 17\<close>
  elements; the record finder of one record of \<open>relu\<close>, built with the default cap;
  two records of \<open>tile\<close>, of which the first has the large tensor as its output; a
  random source that picks the first element and leaves the order; and the insertion
  attempt of the record-matched generator when it takes the forward route.
\<close>

definition t4 :: tensor_type where
  "t4 = \<lparr>dims = [4], elem_type = ''float32''\<rparr>"


definition relu_records :: OpRecordFinder where
  "relu_records = make_record_finder (2 ^ 16) [(''relu'', [(Inr [t4], Inr [t4])])]"


definition choice_first :: "unit \<Rightarrow> var list \<Rightarrow> var \<times> unit" where
  "choice_first r vs = (hd vs, r)"

definition shuffle_id :: "unit \<Rightarrow> string list \<Rightarrow> string list \<times> unit" where
  "shuffle_id r xs = (xs, r)"

definition relu_try_insert :: "unit BaseGen \<Rightarrow> unit BaseGen" where
  "relu_try_insert gen = snd (try_concrete_insert_forward choice_first shuffle_id relu_records gen)"




text \<open>
  Examples for the dialect-rule matcher: a rule class of the unary elementwise
  operators, whose output has the shape of the input and which requires nothing, the
  instance of an operator with one input and one output tensor of rank 2 with two
  success records, and an oracle that is never asked.
\<close>

definition elementwise_unary :: OpType where
  "elementwise_unary =
     \<lparr>n_input = 1, n_output = 1, is_BcastBinaryOp = False,
      checked_type_transfer = (\<lambda>input_shapes. Inr input_shapes),
      checked_requires = (\<lambda>input_shapes. Inr [])\<rparr>"

definition unary_inst :: OpInstance where
  "unary_inst =
     \<lparr>input_tensors = [\<lparr>rank = 2, shape = [Sym_s 0, Sym_s 1], dtype = ''float32''\<rparr>],
      output_tensors = [\<lparr>rank = 2, shape = [Sym_o 0, Sym_o 1], dtype = ''float32''\<rparr>]\<rparr>"

definition unary_success :: "success_record list" where
  "unary_success = [([Some 2, Some 3], [Some 2, Some 3]), ([Some 4, Some 1], [Some 4, Some 1])]"

definition no_oracle :: "val list \<Rightarrow> val list option" where
  "no_oracle input_dict = None"

section \<open>Alias analysis\<close>

lemma alias_valid_Some:
  "\<forall>r \<in> set rl. i < length (fst r) \<and> j < length (fst r) \<Longrightarrow>
   alias_valid i j rl = Inr (\<forall>r \<in> set rl. fst r ! i = fst r ! j)"
  by (induction rl) (auto split: prod.splits)

lemma alias_inner_Some:
  assumes "\<forall>r \<in> set rl. length (fst r) = n" and "i < n" and "\<forall>j \<in> set js. j < n"
  shows "alias_inner rl i js al =
         Inr (al @ map (Pair i) (filter (\<lambda>j. \<forall>r \<in> set rl. fst r ! i = fst r ! j) js))"
  using assms(3)
proof (induction js arbitrary: al)
  case Nil
  then show ?case by simp
next
  case (Cons j js)
  have "\<forall>r \<in> set rl. i < length (fst r) \<and> j < length (fst r)"
    using assms(1,2) Cons.prems by auto
  then have "alias_valid i j rl = Inr (\<forall>r \<in> set rl. fst r ! i = fst r ! j)"
    by (rule alias_valid_Some)
  then show ?case using Cons by simp
qed

lemma alias_outer_Some:
  assumes "\<forall>r \<in> set rl. length (fst r) = n" and "\<forall>i \<in> set is. i < n"
  shows "alias_outer rl n is al =
         Inr (al @ concat (map (\<lambda>i. map (Pair i)
                  (filter (\<lambda>j. \<forall>r \<in> set rl. fst r ! i = fst r ! j) [i + 1..<n])) is))"
  using assms(2)
proof (induction "is" arbitrary: al)
  case Nil
  then show ?case by simp
next
  case (Cons i "is")
  have "alias_inner rl i [i + 1..<n] al =
        Inr (al @ map (Pair i) (filter (\<lambda>j. \<forall>r \<in> set rl. fst r ! i = fst r ! j) [i + 1..<n]))"
    using assms(1) Cons.prems by (intro alias_inner_Some) auto
  then show ?case using Cons by simp
qed

lemma analyze_symbol_aliases:
  assumes "success db = r0 # rs"
    and "\<forall>r \<in> set (success db). length (fst r) = length (fst r0)"
  shows "\<exists>db'. analyze_symbol db = Inr db' \<and>
           aliases db' = aliases db @ concat (map (\<lambda>i. map (Pair i)
              (filter (\<lambda>j. \<forall>r \<in> set (success db). fst r ! i = fst r ! j)
                 [i + 1..<length (fst r0)])) [0..<length (fst r0) - 1])"
proof -
  have "alias_outer (success db) (length (fst r0)) [0..<length (fst r0) - 1] (aliases db) =
        Inr (aliases db @ concat (map (\<lambda>i. map (Pair i)
              (filter (\<lambda>j. \<forall>r \<in> set (success db). fst r ! i = fst r ! j)
                 [i + 1..<length (fst r0)])) [0..<length (fst r0) - 1]))"
    using assms(2) by (intro alias_outer_Some) auto
  then show ?thesis
    using assms(1) by (simp add: analyze_symbol_def Let_def split: prod.splits)
qed

text \<open>
  C6.  On a database whose success set is not empty and whose success tuples all have
  the arity of the first one (the invariant of the invocation DB), and whose alias list
  is still the empty one of the constructor, the analysis returns, and a pair \<open>(i, j)\<close>
  of input-symbol indices with \<open>i < j\<close> is in \<open>aliases\<close> exactly when the values at
  \<open>i\<close> and \<open>j\<close> are equal in every success record.
\<close>

theorem aliases_iff_equal_on_every_success:
  assumes "success db = r0 # rs"
    and "\<forall>r \<in> set (success db). length (fst r) = length (fst r0)"
    and "aliases db = []"
  shows "\<exists>db'. analyze_symbol db = Inr db' \<and>
           (\<forall>i j. i < j \<and> j < length (fst r0) \<longrightarrow>
              ((i, j) \<in> set (aliases db') \<longleftrightarrow>
               (\<forall>r \<in> set (success db). fst r ! i = fst r ! j)))"
proof -
  obtain db' where a: "analyze_symbol db = Inr db'"
    and b: "aliases db' = aliases db @ concat (map (\<lambda>i. map (Pair i)
              (filter (\<lambda>j. \<forall>r \<in> set (success db). fst r ! i = fst r ! j)
                 [i + 1..<length (fst r0)])) [0..<length (fst r0) - 1])"
    using analyze_symbol_aliases [OF assms(1,2)] by blast
  have "(i, j) \<in> set (aliases db') \<longleftrightarrow> (\<forall>r \<in> set (success db). fst r ! i = fst r ! j)"
    if "i < j" and "j < length (fst r0)" for i j
  proof -
    have "i \<in> {0..<length (fst r0) - Suc 0}" using that by auto
    then show ?thesis unfolding b assms(3) using that by force
  qed
  with a show ?thesis by blast
qed

theorem aliases_iff_equal_on_every_success_witness:
  "\<exists>db'. analyze_symbol
            (OpDatabase_init\<lparr>success := [([Some 2, Some 2, Some 3], [Some 2]),
                                          ([Some 4, Some 4, Some 1], [Some 4])]\<rparr>) = Inr db'
         \<and> (0, 1) \<in> set (aliases db') \<and> (0, 2) \<notin> set (aliases db')"
proof -
  let ?db = "OpDatabase_init\<lparr>success := [([Some 2, Some 2, Some 3], [Some 2]),
                                          ([Some 4, Some 4, Some 1], [Some 4])]\<rparr>"
  let ?r0 = "([Some 2, Some 2, Some 3], [Some 2]) :: success_record"
  have s: "success ?db = ([Some 2, Some 2, Some 3], [Some 2]) # [([Some 4, Some 4, Some 1], [Some 4])]"
    by simp
  have l: "\<forall>r \<in> set (success ?db). length (fst r) = length (fst ?r0)"
    by simp
  have e: "aliases ?db = []" by (simp add: OpDatabase_init_def)
  from aliases_iff_equal_on_every_success [OF s l e]
  obtain db' where a: "analyze_symbol ?db = Inr db'"
    and b: "\<forall>i j. i < j \<and> j < length (fst ?r0) \<longrightarrow>
              ((i, j) \<in> set (aliases db') \<longleftrightarrow> (\<forall>r \<in> set (success ?db). fst r ! i = fst r ! j))"
    by blast
  from b [rule_format, of 0 1] have "(0, 1) \<in> set (aliases db')" by simp
  moreover from b [rule_format, of 0 2] have "(0, 2) \<notin> set (aliases db')" by simp
  ultimately show ?thesis using a by blast
qed

section \<open>The pairwise step of the mutator\<close>



section \<open>Admitted input-constraint rules\<close>

lemma for_loop_invariant:
  assumes "for_loop body xs s = Inr s'" and "P s"
    and "\<And>x t t'. x \<in> set xs \<Longrightarrow> P t \<Longrightarrow> body x t = Inr t' \<Longrightarrow> P t'"
  shows "P s'"
  using assms
proof (induction xs arbitrary: s)
  case Nil
  then show ?case by simp
next
  case (Cons x xs)
  from Cons.prems(1) obtain t where b: "body x s = Inr t" and r: "for_loop body xs t = Inr s'"
    by (auto split: sum.splits)
  have t: "P t" using Cons.prems(3) [of x s t] Cons.prems(2) b by simp
  show ?case
  proof (rule Cons.IH [OF r t])
    fix y u u'
    assume "y \<in> set xs" and "P u" and "body y u = Inr u'"
    then show "P u'" using Cons.prems(3) [of y u u'] by simp
  qed
qed

lemma set_prune: "set (prune equivalent ruleset) \<subseteq> set ruleset"
proof (induction equivalent ruleset rule: prune.induct)
  case (1 equivalent ruleset)
  show ?case
  proof (cases "find (\<lambda>i. equivalent ruleset (del_expr i ruleset)) (rev [1..<length ruleset])")
    case None
    then show ?thesis by (subst prune.simps) simp
  next
    case (Some i)
    have "set (prune equivalent (remove1 (ruleset ! i) ruleset)) \<subseteq> set (remove1 (ruleset ! i) ruleset)"
      using "1.IH" [OF Some] .
    also have "\<dots> \<subseteq> set ruleset" by (rule set_remove1_subset)
    finally show ?thesis using Some by (subst prune.simps) simp
  qed
qed

lemma set_RuleDatabase_Add:
  "set (RuleDatabase_Add equivalent rule sg ruleset) \<subseteq> insert (rule, sg) (set ruleset)"
  using set_prune [of equivalent "ruleset @ [(rule, sg)]"]
  by (auto simp: RuleDatabase_Add_def)

lemma inspect_valid_True:
  "inspect_valid tm tree sg sym_list valid_list = Inr True \<Longrightarrow>
   \<forall>inputs \<in> set valid_list. check_record tm tree sg sym_list inputs = Inr True"
  by (induction valid_list) (auto split: sum.splits if_splits)

lemma inspect_invalid_True:
  "inspect_invalid tm tree sg sym_list invalid_list = Inr True \<Longrightarrow>
   \<exists>inputs \<in> set invalid_list. check_record tm tree sg sym_list inputs = Inr False"
  by (induction invalid_list) (auto split: sum.splits if_splits)

lemma inspect_all_records_True:
  assumes "inspect_all_records tm valid_list invalid_list sym_list tree sg = Inr True"
  shows "admitted_ok tm valid_list invalid_list (Remap tree sym_list, sg)"
proof -
  from assms have v: "inspect_valid tm tree sg sym_list valid_list = Inr True"
    by (auto simp: inspect_all_records_def split: sum.splits if_splits)
  from assms have i: "sg \<noteq> Eq \<Longrightarrow> inspect_invalid tm tree sg sym_list invalid_list = Inr True"
    by (auto simp: inspect_all_records_def split: sum.splits if_splits)
  show ?thesis
    using inspect_valid_True [OF v] inspect_invalid_True [OF i]
    by (auto simp: admitted_ok_def rule_check_def)
qed

lemma constant_valid_True:
  "constant_valid i v valid_list = Inr True \<Longrightarrow>
   \<forall>inputs \<in> set valid_list. i < length inputs \<and> inputs ! i = v"
  by (induction valid_list) (auto split: if_splits)

lemma constant_test_ok:
  assumes "constant_test equivalent valid_list i ruleset = Inr ruleset'"
    and "\<forall>r \<in> set ruleset. admitted_ok tm valid_list invalid_list r"
  shows "\<forall>r \<in> set ruleset'. admitted_ok tm valid_list invalid_list r"
proof (cases "constant_valid i (hd valid_list ! i) valid_list = Inr True")
  case True
  show ?thesis
  proof (cases "length ruleset > 50")
    case full: True
    then have "ruleset' = ruleset"
      using assms(1) True by (simp add: constant_test_def Let_def)
    then show ?thesis using assms(2) by simp
  next
    case False
    then obtain c where c: "hd valid_list ! i = Some c"
      and r: "ruleset' = RuleDatabase_Add equivalent (SymMinusConst i c) Eq ruleset"
      using assms(1) True by (auto simp: constant_test_def Let_def split: option.splits)
    have "admitted_ok tm valid_list invalid_list (SymMinusConst i c, Eq)"
      using constant_valid_True [OF True] c
      by (auto simp: admitted_ok_def rule_check_def)
    then show ?thesis
      using assms(2) set_RuleDatabase_Add [of equivalent "SymMinusConst i c" Eq ruleset] r
      by auto
  qed
next
  case False
  then have "ruleset' = ruleset"
    using assms(1) by (auto simp: constant_test_def Let_def split: sum.splits if_splits)
  then show ?thesis using assms(2) by simp
qed

lemma try_sign_ok:
  assumes "try_sign tm equivalent valid_list invalid_list tree sym_list sg ruleset = Inr ruleset'"
    and "\<forall>r \<in> set ruleset. admitted_ok tm valid_list invalid_list r"
  shows "\<forall>r \<in> set ruleset'. admitted_ok tm valid_list invalid_list r"
proof (cases "inspect_all_records tm valid_list invalid_list sym_list tree sg = Inr True")
  case True
  then have "ruleset' = RuleDatabase_Add equivalent (Remap tree sym_list) sg ruleset"
    using assms(1) by (simp add: try_sign_def)
  then show ?thesis
    using assms(2) inspect_all_records_True [OF True]
      set_RuleDatabase_Add [of equivalent "Remap tree sym_list" sg ruleset]
    by auto
next
  case False
  then have "ruleset' = ruleset"
    using assms(1) by (auto simp: try_sign_def split: sum.splits if_splits)
  then show ?thesis using assms(2) by simp
qed

lemma try_sym_set_ok:
  assumes "try_sym_set tm equivalent valid_list invalid_list tree depth sym_set ruleset = Inr ruleset'"
    and "\<forall>r \<in> set ruleset. admitted_ok tm valid_list invalid_list r"
  shows "\<forall>r \<in> set ruleset'. admitted_ok tm valid_list invalid_list r"
proof -
  have "for_loop (try_sign tm equivalent valid_list invalid_list tree (mask_to_list sym_set))
          (if depth \<le> 1 then [Eq, Gt, Ge] else [Eq]) ruleset = Inr ruleset'"
    using assms(1) by (simp add: try_sym_set_def Let_def)
  then show ?thesis
  proof (rule for_loop_invariant)
    show "\<forall>r \<in> set ruleset. admitted_ok tm valid_list invalid_list r" by (rule assms(2))
  next
    fix x t t'
    assume a: "\<forall>r \<in> set t. admitted_ok tm valid_list invalid_list r"
      and b: "try_sign tm equivalent valid_list invalid_list tree (mask_to_list sym_set) x t = Inr t'"
    show "\<forall>r \<in> set t'. admitted_ok tm valid_list invalid_list r"
      by (rule try_sign_ok [OF b a])
  qed
qed

lemma tree_loop_ok:
  assumes "tree_loop tm expired equivalent valid_list invalid_list input_len slots tree_tried ruleset
           = Inr ruleset'"
    and "\<forall>r \<in> set ruleset. admitted_ok tm valid_list invalid_list r"
  shows "\<forall>r \<in> set ruleset'. admitted_ok tm valid_list invalid_list r"
  using assms
proof (induction slots arbitrary: tree_tried ruleset)
  case Nil
  then show ?case by simp
next
  case (Cons slot slots)
  obtain depth ArgSet i where slot: "slot = (depth, ArgSet, i)" by (cases slot) auto
  show ?case
  proof (cases "expired (tree_tried + 1)")
    case True
    then show ?thesis using Cons.prems slot by simp
  next
    case False
    show ?thesis
    proof (cases "op tm (getTree tm depth ArgSet i) \<notin> {Some ''+'', Some ''-'', None}")
      case True
      then have "tree_loop tm expired equivalent valid_list invalid_list input_len slots
                   (tree_tried + 1) ruleset = Inr ruleset'"
        using Cons.prems(1) slot False by (simp add: Let_def)
      then show ?thesis using Cons.IH Cons.prems(2) by blast
    next
      case ok: False
      then obtain mid where mid: "for_loop (try_sym_set tm equivalent valid_list invalid_list
                     (getTree tm depth ArgSet i) depth)
                   (gen_sym_set (2 ^ input_len - 1) (popcount ArgSet)) ruleset = Inr mid"
        and rest: "(if length mid \<ge> 50 then Inr mid
                else tree_loop tm expired equivalent valid_list invalid_list input_len slots
                       (tree_tried + 1) mid) = Inr ruleset'"
        using Cons.prems(1) slot False by (auto simp: Let_def split: sum.splits)
      have m: "\<forall>r \<in> set mid. admitted_ok tm valid_list invalid_list r"
        using mid
      proof (rule for_loop_invariant)
        show "\<forall>r \<in> set ruleset. admitted_ok tm valid_list invalid_list r"
          by (rule Cons.prems(2))
      next
        fix x t t'
        assume a: "\<forall>r \<in> set t. admitted_ok tm valid_list invalid_list r"
          and b: "try_sym_set tm equivalent valid_list invalid_list
                    (getTree tm depth ArgSet i) depth x t = Inr t'"
        show "\<forall>r \<in> set t'. admitted_ok tm valid_list invalid_list r"
          by (rule try_sym_set_ok [OF b a])
      qed
      show ?thesis
      proof (cases "length mid \<ge> 50")
        case True
        then show ?thesis using rest m by simp
      next
        case False
        then show ?thesis using rest m Cons.IH by simp
      qed
    qed
  qed
qed

subsection \<open>The synthesiser on the examples\<close>

lemma masks:
  "gen_sym_set (Suc 0) 0 = [0]" "gen_sym_set (Suc 0) (Suc 0) = [Suc 0]"
  "mask_to_list 0 = []" "mask_to_list (Suc 0) = [0]"
  "popcount 0 = 0" "popcount (Suc 0) = Suc 0"
  by code_simp+

lemma example_TreeDB_fields:
  "getTree example_TreeDB = example_getTree" "op example_TreeDB = tree_op"
  "evaluate example_TreeDB = tree_evaluate"
  "genTreeList example_TreeDB TreeMaxHeight (min (Suc 0) TreeArgCount)
   = [(0, 0, 0), (0, 0, 1), (0, 1, 0), (1, 1, 0)]"
  by (simp_all add: example_TreeDB_def example_slots_def TreeMaxHeight_def TreeArgCount_def)

lemma ideal_AB_A:
  "\<not> equivalent_ideal [(Remap (Arg 0) [0], Gt), (Remap (Bin ''-'' (Arg 0) (Const 1)) [0], Gt)]
                        [(Remap (Arg 0) [0], Gt)]"
proof -
  have "conjunction [(Remap (Arg 0) [0], Gt), (Remap (Bin ''-'' (Arg 0) (Const 1)) [0], Gt)] (\<lambda>k. 1)
        \<noteq> conjunction [(Remap (Arg 0) [0], Gt)] (\<lambda>k. 1)"
    by (simp add: conjunction_def rule_formula_def)
  then show ?thesis unfolding equivalent_ideal_def by blast
qed

lemma ideal_ABC_AB:
  "equivalent_ideal [(Remap (Arg 0) [0], Gt), (Remap (Bin ''-'' (Arg 0) (Const 1)) [0], Gt),
                     (Remap (Bin ''-'' (Arg 0) (Const 1)) [0], Ge)]
                    [(Remap (Arg 0) [0], Gt), (Remap (Bin ''-'' (Arg 0) (Const 1)) [0], Gt)]"
  by (auto simp: equivalent_ideal_def conjunction_def rule_formula_def)

lemma prune_A: "prune equivalent_ideal [(Remap (Arg 0) [0], Gt)] = [(Remap (Arg 0) [0], Gt)]"
  by (subst prune.simps) simp

lemma prune_AB:
  "prune equivalent_ideal [(Remap (Arg 0) [0], Gt), (Remap (Bin ''-'' (Arg 0) (Const 1)) [0], Gt)]
   = [(Remap (Arg 0) [0], Gt), (Remap (Bin ''-'' (Arg 0) (Const 1)) [0], Gt)]"
  by (subst prune.simps) (simp add: del_expr_def ideal_AB_A)

lemma prune_ABC:
  "prune equivalent_ideal [(Remap (Arg 0) [0], Gt), (Remap (Bin ''-'' (Arg 0) (Const 1)) [0], Gt),
                           (Remap (Bin ''-'' (Arg 0) (Const 1)) [0], Ge)]
   = [(Remap (Arg 0) [0], Gt), (Remap (Bin ''-'' (Arg 0) (Const 1)) [0], Gt)]"
  by (subst prune.simps) (simp add: del_expr_def ideal_ABC_AB prune_AB upt_rec)

lemma solve_db_A:
  "strict_solve_inst example_TreeDB (\<lambda>n. False) equivalent_ideal db_A
   = Inr [(Remap (Arg 0) [0], Gt), (Remap (Bin ''-'' (Arg 0) (Const 1)) [0], Gt)]"
  by (simp add: strict_solve_inst_def db_A_def OpDatabase_init_def Let_def constant_test_def
        example_TreeDB_fields
        try_sym_set_def try_sign_def masks RuleDatabase_Add_def prune_A prune_AB prune_ABC
        inspect_all_records_def check_record_def collect_val_def)

lemma ideal_AG_A:
  "equivalent_ideal [(Remap (Arg 0) [0], Gt), (Remap (Arg 0) [0], Ge)] [(Remap (Arg 0) [0], Gt)]"
  by (auto simp: equivalent_ideal_def conjunction_def rule_formula_def)

lemma ideal_AD_A:
  "equivalent_ideal [(Remap (Arg 0) [0], Gt), (Remap (Bin ''-'' (Arg 0) (Const 1)) [0], Ge)]
                    [(Remap (Arg 0) [0], Gt)]"
  by (auto simp: equivalent_ideal_def conjunction_def rule_formula_def)

lemma prune_AG:
  "prune equivalent_ideal [(Remap (Arg 0) [0], Gt), (Remap (Arg 0) [0], Ge)]
   = [(Remap (Arg 0) [0], Gt)]"
  by (subst prune.simps) (simp add: del_expr_def ideal_AG_A prune_A)

lemma prune_AD:
  "prune equivalent_ideal [(Remap (Arg 0) [0], Gt), (Remap (Bin ''-'' (Arg 0) (Const 1)) [0], Ge)]
   = [(Remap (Arg 0) [0], Gt)]"
  by (subst prune.simps) (simp add: del_expr_def ideal_AD_A prune_A)

subsection \<open>The result of the synthesiser\<close>

text \<open>
  C2.  Every rule \<open>(e, rel)\<close> in the result of the constraint-rule synthesiser
  satisfies \<open>e(inputs) rel 0\<close> on every success record, and when \<open>rel\<close> is \<open>>\<close> or
  \<open>>=\<close> some fail record makes \<open>e(inputs) rel 0\<close> false.
\<close>

theorem admitted_rules_hold_on_success_and_separate:
  assumes "strict_solve_inst tm expired equivalent info = Inr rules"
    and "(e, sg) \<in> set rules"
  shows "(\<forall>(inputs, outputs) \<in> set (success info). rule_check tm (e, sg) inputs = Inr True)
       \<and> (sg \<in> {Gt, Ge} \<longrightarrow>
            (\<exists>inputs \<in> set (fail info). rule_check tm (e, sg) inputs = Inr False))"
proof -
  let ?valid = "map fst (success info)"
  obtain inputs0 rest where v: "?valid = inputs0 # rest"
    using assms(1) by (cases ?valid) (auto simp: strict_solve_inst_def)
  obtain ruleset where c: "for_loop (constant_test equivalent ?valid) [0..<length inputs0] [] = Inr ruleset"
    and t: "tree_loop tm expired equivalent ?valid (fail info) (length inputs0)
              (genTreeList tm TreeMaxHeight (min (length inputs0) TreeArgCount)) 0 ruleset = Inr rules"
    using assms(1) v by (auto simp: strict_solve_inst_def Let_def split: sum.splits)
  have "\<forall>r \<in> set ruleset. admitted_ok tm ?valid (fail info) r"
    using c
  proof (rule for_loop_invariant)
    show "\<forall>r \<in> set []. admitted_ok tm ?valid (fail info) r" by simp
  next
    fix x t t'
    assume a: "\<forall>r \<in> set t. admitted_ok tm ?valid (fail info) r"
      and b: "constant_test equivalent ?valid x t = Inr t'"
    show "\<forall>r \<in> set t'. admitted_ok tm ?valid (fail info) r"
      by (rule constant_test_ok [OF b a])
  qed
  then have "\<forall>r \<in> set rules. admitted_ok tm ?valid (fail info) r"
    using tree_loop_ok [OF t] by blast
  then have "admitted_ok tm ?valid (fail info) (e, sg)" using assms(2) by blast
  then show ?thesis
    by (cases sg) (auto simp: admitted_ok_def)
qed

theorem admitted_rules_hold_on_success_and_separate_witness:
  "strict_solve_inst example_TreeDB (\<lambda>n. False) equivalent_ideal db_A
     = Inr [(Remap (Arg 0) [0], Gt), (Remap (Bin ''-'' (Arg 0) (Const 1)) [0], Gt)]
   \<and> rule_check example_TreeDB (Remap (Bin ''-'' (Arg 0) (Const 1)) [0], Gt) [Some 2] = Inr True
   \<and> rule_check example_TreeDB (Remap (Bin ''-'' (Arg 0) (Const 1)) [0], Gt) [Some 3] = Inr True
   \<and> (\<exists>inputs \<in> set (fail db_A).
         rule_check example_TreeDB (Remap (Bin ''-'' (Arg 0) (Const 1)) [0], Gt) inputs = Inr False)"
  using admitted_rules_hold_on_success_and_separate
          [OF solve_db_A, of "Remap (Bin ''-'' (Arg 0) (Const 1)) [0]" Gt]
        solve_db_A
  by (simp add: db_A_def OpDatabase_init_def)

section \<open>Minimality of the rule set\<close>

text \<open>
  C3.  The claim: after each admission, removing any single rule from the rule set
  yields a strictly weaker conjunction.  The pruning loop tries the indices
  \<open>len - 1, ..., 1\<close> and never the index 0, so the rule admitted first stays when a
  later rule implies it: after the admissions of \<open>s0 > 0\<close> and of \<open>s0-1 > 0\<close>, which is
  also what the synthesiser returns on the example database, both rules are in the set,
  and the set without its first rule is equivalent to the whole set.
\<close>

theorem first_rule_is_never_pruned:
  "RuleDatabase_Add equivalent_ideal (Remap (Bin ''-'' (Arg 0) (Const 1)) [0]) Gt
     (RuleDatabase_Add equivalent_ideal (Remap (Arg 0) [0]) Gt [])
     = [(Remap (Arg 0) [0], Gt), (Remap (Bin ''-'' (Arg 0) (Const 1)) [0], Gt)]
   \<and> strict_solve_inst example_TreeDB (\<lambda>n. False) equivalent_ideal db_A
     = Inr [(Remap (Arg 0) [0], Gt), (Remap (Bin ''-'' (Arg 0) (Const 1)) [0], Gt)]
   \<and> equivalent_ideal
       (del_expr 0 [(Remap (Arg 0) [0], Gt), (Remap (Bin ''-'' (Arg 0) (Const 1)) [0], Gt)])
       [(Remap (Arg 0) [0], Gt), (Remap (Bin ''-'' (Arg 0) (Const 1)) [0], Gt)]"
proof -
  have "equivalent_ideal
       (del_expr 0 [(Remap (Arg 0) [0], Gt), (Remap (Bin ''-'' (Arg 0) (Const 1)) [0], Gt)])
       [(Remap (Arg 0) [0], Gt), (Remap (Bin ''-'' (Arg 0) (Const 1)) [0], Gt)]"
    by (auto simp: equivalent_ideal_def conjunction_def rule_formula_def del_expr_def)
  then show ?thesis
    by (simp add: RuleDatabase_Add_def prune_A prune_AB solve_db_A)
qed

section \<open>The negative samples of the constraint-rule synthesiser\<close>

text \<open>
  The claim C4 as stated, that a fail record with a negative value is never used, would
  make the result the same with and without such records.  On the example database,
  whose only fail input is \<open>(-2)\<close>, the synthesiser returns the rule \<open>s0 > 0\<close>, and no rule
  once the fail inputs are restricted to the non-negative ones.
\<close>

theorem negative_fail_record_is_used_counterexample:
  "strict_solve_inst example_TreeDB (\<lambda>n. False) equivalent_ideal db_B
     = Inr [(Remap (Arg 0) [0], Gt)]
   \<and> strict_solve_inst example_TreeDB (\<lambda>n. False) equivalent_ideal
       (db_B\<lparr>fail := filter nonneg_inputs (fail db_B)\<rparr>) = Inr []"
  by (simp add: strict_solve_inst_def db_B_def OpDatabase_init_def Let_def constant_test_def
        example_TreeDB_fields nonneg_inputs_def
        try_sym_set_def try_sign_def masks RuleDatabase_Add_def prune_A prune_AG prune_AD
        inspect_all_records_def check_record_def collect_val_def)

lemma inspect_valid_eq:
  assumes "\<forall>inputs \<in> set valid_list. \<exists>b. check_record tm tree sg sym_list inputs = Inr b"
  shows "inspect_valid tm tree sg sym_list valid_list
         = Inr (\<forall>inputs \<in> set valid_list. check_record tm tree sg sym_list inputs = Inr True)"
  using assms by (induction valid_list) auto

lemma inspect_invalid_eq:
  assumes "\<forall>inputs \<in> set invalid_list. \<exists>b. check_record tm tree sg sym_list inputs = Inr b"
  shows "inspect_invalid tm tree sg sym_list invalid_list
         = Inr (\<exists>inputs \<in> set invalid_list. check_record tm tree sg sym_list inputs = Inr False)"
  using assms by (induction invalid_list) auto

text \<open>
  C4, amended.  The negative samples are the fail inputs that \<open>solve_inst\<close> hands to
  \<open>inspect_all_records\<close>, which is the whole fail set of the database: when no evaluation
  raises, a strict candidate is accepted exactly when it holds on every success input
  and is false on some fail input, whatever the sign of that input's values.
\<close>

theorem strict_candidate_separated_by_any_fail_record:
  assumes "sg \<noteq> Eq"
    and "\<forall>inputs \<in> set valid_list. \<exists>b. check_record tm tree sg sym_list inputs = Inr b"
    and "\<forall>inputs \<in> set invalid_list. \<exists>b. check_record tm tree sg sym_list inputs = Inr b"
  shows "inspect_all_records tm valid_list invalid_list sym_list tree sg
         = Inr ((\<forall>inputs \<in> set valid_list. check_record tm tree sg sym_list inputs = Inr True)
              \<and> (\<exists>inputs \<in> set invalid_list. check_record tm tree sg sym_list inputs = Inr False))"
  using assms(1) inspect_valid_eq [OF assms(2)] inspect_invalid_eq [OF assms(3)]
  by (simp add: inspect_all_records_def)

theorem strict_candidate_separated_by_any_fail_record_witness:
  "inspect_all_records example_TreeDB [[Some 1], [Some 2]] [[Some (- 2)]] [0] (Arg 0) Gt = Inr True
   \<and> check_record example_TreeDB (Arg 0) Gt [0] [Some (- 2)] = Inr False"
  using strict_candidate_separated_by_any_fail_record
          [of Gt "[[Some 1], [Some 2]]" example_TreeDB "Arg 0" "[0]" "[[Some (- 2)]]"]
  by (auto simp: check_record_def collect_val_def example_TreeDB_fields)

section \<open>Output-shape rules\<close>

lemma collect_haszero_Inr:
  "collect_haszero sym_list inputs = Inr (val, hz) \<Longrightarrow>
   collect_val sym_list inputs = Inr val \<and> hz = haszero sym_list inputs"
proof (induction sym_list arbitrary: val hz)
  case Nil
  then show ?case by (simp add: collect_val_def haszero_def)
next
  case (Cons argNum rest)
  from Cons.prems obtain x val' hz' where a: "argNum < length inputs"
    and x: "inputs ! argNum = Some x"
    and r: "collect_haszero rest inputs = Inr (val', hz')"
    and v: "val = Some x # val'" and h: "hz = (x \<le> 0 \<or> hz')"
    by (auto split: if_splits option.splits sum.splits)
  from Cons.IH [OF r] have "collect_val rest inputs = Inr val'" and "hz' = haszero rest inputs"
    by simp_all
  then show ?case using a x v h
    by (auto simp: collect_val_def haszero_def split: if_splits)
qed

lemma check_records_valid:
  assumes "check_records tm zf tree sym_list o_id recs alo = Inr (True, alo')"
    and "r \<in> set recs" and "o_id < length (snd r)"
    and "\<not> (zf \<and> haszero sym_list (fst r))"
  shows "\<exists>val. collect_val sym_list (fst r) = Inr val \<and> evaluate tm tree val = Inr (snd r ! o_id)"
  using assms
proof (induction recs arbitrary: alo)
  case Nil
  then show ?case by simp
next
  case (Cons rec recs)
  obtain inputs outputs where rec: "rec = (inputs, outputs)" by (cases rec) auto
  show ?case
  proof (cases "o_id \<ge> length outputs")
    case True
    then have "check_records tm zf tree sym_list o_id recs alo = Inr (True, alo')"
      using Cons.prems(1) rec by simp
    moreover have "r \<in> set recs" using Cons.prems(2,3) True rec by auto
    ultimately show ?thesis using Cons.IH Cons.prems(3,4) by blast
  next
    case False
    then obtain val hz where c: "collect_haszero sym_list inputs = Inr (val, hz)"
      using Cons.prems(1) rec by (auto simp: Let_def split: sum.splits)
    note ch = collect_haszero_Inr [OF c]
    show ?thesis
    proof (cases "\<not> zf \<or> \<not> hz")
      case True
      then obtain v where e: "evaluate tm tree val = Inr v" and veq: "v = outputs ! o_id"
        and rest: "check_records tm zf tree sym_list o_id recs True = Inr (True, alo')"
        using Cons.prems(1) rec False c by (auto simp: Let_def split: sum.splits if_splits)
      show ?thesis
      proof (cases "r = rec")
        case True
        then show ?thesis using rec ch e veq by simp
      next
        case False
        then have "r \<in> set recs" using Cons.prems(2) by simp
        then show ?thesis using Cons.IH [OF rest] Cons.prems(3,4) by blast
      qed
    next
      case skip: False
      then have rest: "check_records tm zf tree sym_list o_id recs alo = Inr (True, alo')"
        using Cons.prems(1) rec False c by (auto simp: Let_def split: sum.splits if_splits)
      have "r \<noteq> rec" using skip ch rec Cons.prems(4) by auto
      then have "r \<in> set recs" using Cons.prems(2) by simp
      then show ?thesis using Cons.IH [OF rest] Cons.prems(3,4) by blast
    qed
  qed
qed

lemma all_ok_append:
  assumes "all_ok tm zf recs vts" and "rule_ok tm zf recs o_id rule"
  shows "all_ok tm zf recs (vts[o_id := vts ! o_id @ [rule]])"
  unfolding all_ok_def
proof (intro allI impI ballI)
  fix o' rule'
  assume o': "o' < length (vts[o_id := vts ! o_id @ [rule]])"
    and mem: "rule' \<in> set (vts[o_id := vts ! o_id @ [rule]] ! o')"
  show "rule_ok tm zf recs o' rule'"
  proof (cases "o' = o_id")
    case True
    then have "rule' \<in> set (vts ! o_id) \<or> rule' = rule" using o' mem by auto
    then show ?thesis using assms True o' by (auto simp: all_ok_def)
  next
    case False
    then show ?thesis using assms(1) o' mem by (auto simp: all_ok_def)
  qed
qed

lemma try_sym_set_io_ok:
  assumes "try_sym_set_io tm zf db tree o_id sym_set vts = Inr vts'"
    and "all_ok tm zf (success db) vts"
  shows "all_ok tm zf (success db) vts' \<and> length vts' = length vts"
proof (cases "check_duplicate_sym db sym_set")
  case True
  then show ?thesis using assms by (simp add: try_sym_set_io_def)
next
  case False
  then obtain valid alo where c: "check_records tm zf tree (mask_to_list sym_set) o_id
      (success db) False = Inr (valid, alo)"
    and v: "vts' = (if valid \<and> alo then vts[o_id := vts ! o_id @ [TreeRule tree sym_set]] else vts)"
    using assms(1) by (auto simp: try_sym_set_io_def split: sum.splits)
  show ?thesis
  proof (cases "valid \<and> alo")
    case True
    then have c': "check_records tm zf tree (mask_to_list sym_set) o_id (success db) False
                   = Inr (True, alo)" using c by simp
    have "predicts tm tree sym_set o_id r"
      if h1: "r \<in> set (success db)" and h2: "o_id < length (snd r)"
        and h3: "\<not> (zf \<and> haszero (mask_to_list sym_set) (fst r))" for r
    proof -
      obtain val where "collect_val (mask_to_list sym_set) (fst r) = Inr val"
        and "evaluate tm tree val = Inr (snd r ! o_id)"
        using check_records_valid [OF c' h1 h2 h3] by blast
      then show ?thesis by (simp add: predicts_def)
    qed
    then have "rule_ok tm zf (success db) o_id (TreeRule tree sym_set)"
      by (simp add: rule_ok_def)
    then show ?thesis using v True assms(2) all_ok_append by auto
  next
    case False
    then show ?thesis using v assms(2) by auto
  qed
qed

lemma sym_set_loop_ok:
  assumes "for_loop (try_sym_set_io tm zf db tree o_id) sets vts = Inr vts'"
    and "all_ok tm zf (success db) vts"
  shows "all_ok tm zf (success db) vts' \<and> length vts' = length vts"
  using assms(1)
proof (rule for_loop_invariant [where P = "\<lambda>v. all_ok tm zf (success db) v \<and> length v = length vts"])
  show "all_ok tm zf (success db) vts \<and> length vts = length vts" using assms(2) by simp
next
  fix x t t'
  assume a: "all_ok tm zf (success db) t \<and> length t = length vts"
    and b: "try_sym_set_io tm zf db tree o_id x t = Inr t'"
  show "all_ok tm zf (success db) t' \<and> length t' = length vts"
    using try_sym_set_io_ok [OF b] a by simp
qed

lemma try_output_ok:
  assumes "try_output tm zf db input_len tree sym_count o_id st = Inr st'"
    and "all_ok tm zf (success db) (fst st)"
  shows "all_ok tm zf (success db) (fst st') \<and> length (fst st') = length (fst st)"
proof (cases "length (fst st ! o_id) \<ge> 1")
  case True
  then show ?thesis using assms by (simp add: try_output_def)
next
  case False
  then obtain vts' where l: "for_loop (try_sym_set_io tm zf db tree o_id)
        (gen_sym_set (2 ^ input_len - 1) sym_count) (fst st) = Inr vts'"
    and s: "st' = (vts', True)"
    using assms(1) by (auto simp: try_output_def split: sum.splits)
  show ?thesis using sym_set_loop_ok [OF l assms(2)] s by simp
qed

lemma output_loop_ok:
  assumes "for_loop (try_output tm zf db input_len tree sym_count) os st = Inr st'"
    and "all_ok tm zf (success db) (fst st)"
  shows "all_ok tm zf (success db) (fst st') \<and> length (fst st') = length (fst st)"
  using assms(1)
proof (rule for_loop_invariant
    [where P = "\<lambda>s. all_ok tm zf (success db) (fst s) \<and> length (fst s) = length (fst st)"])
  show "all_ok tm zf (success db) (fst st) \<and> length (fst st) = length (fst st)"
    using assms(2) by simp
next
  fix x t t'
  assume a: "all_ok tm zf (success db) (fst t) \<and> length (fst t) = length (fst st)"
    and b: "try_output tm zf db input_len tree sym_count x t = Inr t'"
  show "all_ok tm zf (success db) (fst t') \<and> length (fst t') = length (fst st)"
    using try_output_ok [OF b] a by simp
qed

lemma tree_loop_io_ok:
  assumes "tree_loop_io tm zf expired db input_len output_len slots tree_tried vts = Inr vts'"
    and "all_ok tm zf (success db) vts"
  shows "all_ok tm zf (success db) vts' \<and> length vts' = length vts"
  using assms
proof (induction slots arbitrary: tree_tried vts)
  case Nil
  then show ?case by simp
next
  case (Cons slot slots)
  obtain depth ArgSet i where slot: "slot = (depth, ArgSet, i)" by (cases slot) auto
  from Cons.prems(1) obtain mid happen where
    l: "for_loop (try_output tm zf db input_len (getTree tm depth ArgSet i) (popcount ArgSet))
          [0..<output_len] (vts, False) = Inr (mid, happen)"
    and rest: "(if \<not> happen then Inr mid
          else if expired (tree_tried + 1) then Inr mid
          else tree_loop_io tm zf expired db input_len output_len slots (tree_tried + 1) mid)
         = Inr vts'"
    unfolding slot by (auto simp: Let_def split: sum.splits)
  have m: "all_ok tm zf (success db) mid \<and> length mid = length vts"
    using output_loop_ok [OF l] Cons.prems(2) by simp
  show ?case
  proof (cases "\<not> happen \<or> expired (tree_tried + 1)")
    case True
    then have "vts' = mid" using rest by (auto split: if_splits)
    then show ?thesis using m by simp
  next
    case False
    then have "tree_loop_io tm zf expired db input_len output_len slots (tree_tried + 1) mid
               = Inr vts'" using rest by simp
    then show ?thesis using Cons.IH m by auto
  qed
qed

lemma rank_valid_all:
  "rank_valid input_len o_id recs \<Longrightarrow> r \<in> set recs \<Longrightarrow> o_id < length (snd r) \<Longrightarrow>
   snd r ! o_id = Some (int input_len)"
  by (induction recs) (auto split: if_splits)

lemma rank_fallback_ok:
  assumes "all_ok tm zf recs vts"
  shows "all_ok tm zf recs (rank_fallback recs input_len o_id vts)
         \<and> length (rank_fallback recs input_len o_id vts) = length vts"
proof (cases "\<not> length (vts ! o_id) \<ge> 1 \<and> rank_valid input_len o_id recs")
  case True
  then have "rule_ok tm zf recs o_id (RankRule input_len)"
    using rank_valid_all by (auto simp: rule_ok_def)
  then show ?thesis using True assms all_ok_append by (auto simp: rank_fallback_def)
next
  case False
  then show ?thesis using assms by (auto simp: rank_fallback_def)
qed

lemma rank_loop_ok:
  "all_ok tm zf recs vts \<Longrightarrow>
   all_ok tm zf recs (fold (rank_fallback recs input_len) os vts)
   \<and> length (fold (rank_fallback recs input_len) os vts) = length vts"
proof (induction os arbitrary: vts)
  case Nil
  then show ?case by simp
next
  case (Cons o_id os)
  have "all_ok tm zf recs (rank_fallback recs input_len o_id vts)"
    and "length (rank_fallback recs input_len o_id vts) = length vts"
    using rank_fallback_ok [OF Cons.prems] by simp_all
  then show ?case using Cons.IH by simp
qed

lemma analyze_db_Z0: "analyze_symbol db_Z0 = Inr db_Z"
  by (simp add: analyze_symbol_def db_Z0_def db_Z_def OpDatabase_init_def Let_def
        mark_nonint_def relate_all_def relate_pair_def compare_array_diff_def)

lemma solve_db_Z:
  "symbl_solve_inst example_TreeDB True (\<lambda>n. False) db_Z = Inr [[TreeRule (Arg 0) 1]]"
  by code_simp

text \<open>
  The claim C1 as stated, that an admitted rule predicts \<open>o_k\<close> on every success record
  of the database, fails when the zero filter is on: with the success records
  \<open>(0) \<rightarrow> (5)\<close> and \<open>(3) \<rightarrow> (3)\<close> the synthesiser admits the rule \<open>o0 = s0\<close>, having
  passed over the first record, which the rule does not predict.
\<close>

theorem zero_filtered_record_is_not_predicted_counterexample:
  "analyze_symbol db_Z0 = Inr db_Z
   \<and> symbl_solve_inst example_TreeDB True (\<lambda>n. False) db_Z = Inr [[TreeRule (Arg 0) 1]]
   \<and> ([Some 0], [Some 5]) \<in> set (success db_Z)
   \<and> \<not> predicts example_TreeDB (Arg 0) 1 0 ([Some 0], [Some 5])"
  using analyze_db_Z0 solve_db_Z
  by (simp add: db_Z_def db_Z0_def predicts_def masks collect_val_def example_TreeDB_fields)

text \<open>
  C1, amended.  Every rule that the shape-rule synthesiser admits for the output \<open>o_k\<close>
  predicts the observed value of \<open>o_k\<close> on every success record that has an output
  \<open>o_k\<close> and that the zero filter does not pass over (it passes over a record when
  \<open>cfg_zerofilter\<close> is set and a value of the record at the rule's symbols is \<open>\<le> 0\<close>):
  the rule's tree, evaluated on the record's input values at the rule's symbol subset,
  gives the record's \<open>o_k\<close>.  The rank fallback, the constant \<open>input_len\<close>, is the value
  of \<open>o_k\<close> in every success record that has an output \<open>o_k\<close>.
\<close>

theorem shape_rule_predicts_unskipped_records:
  assumes "symbl_solve_inst tm cfg_zerofilter expired OpDB = Inr valid_tree_set"
    and "o_id < length valid_tree_set"
    and "rule \<in> set (valid_tree_set ! o_id)"
    and "r \<in> set (success OpDB)"
    and "o_id < length (snd r)"
  shows "case rule of
           TreeRule tree sym_set \<Rightarrow>
             \<not> (cfg_zerofilter \<and> haszero (mask_to_list sym_set) (fst r)) \<longrightarrow>
             predicts tm tree sym_set o_id r
         | RankRule n \<Rightarrow> snd r ! o_id = Some (int n)"
proof -
  obtain r0 rs where s: "success OpDB = r0 # rs"
    using assms(1) by (cases "success OpDB") (auto simp: symbl_solve_inst_def)
  let ?n = "length (fst r0)" and ?k = "length (unrelated OpDB)"
  obtain mid where t: "tree_loop_io tm cfg_zerofilter expired OpDB ?n ?k
        (genTreeList tm TreeMaxHeight (min ?n TreeArgCount)) 0 (replicate ?k []) = Inr mid"
    and f: "valid_tree_set = fold (rank_fallback (success OpDB) ?n) [0..<?k] mid"
    using assms(1) s by (auto simp: symbl_solve_inst_def Let_def split: sum.splits)
  have "all_ok tm cfg_zerofilter (success OpDB) (replicate ?k [])"
    by (simp add: all_ok_def)
  then have "all_ok tm cfg_zerofilter (success OpDB) mid"
    using tree_loop_io_ok [OF t] by simp
  then have "all_ok tm cfg_zerofilter (success OpDB) valid_tree_set"
    using rank_loop_ok f by blast
  then have "rule_ok tm cfg_zerofilter (success OpDB) o_id rule"
    using assms(2,3) by (auto simp: all_ok_def)
  then show ?thesis using assms(4,5) by (cases rule) (auto simp: rule_ok_def)
qed

theorem shape_rule_predicts_unskipped_records_witness:
  "symbl_solve_inst example_TreeDB True (\<lambda>n. False) db_Z = Inr [[TreeRule (Arg 0) 1]]
   \<and> ([Some 3], [Some 3]) \<in> set (success db_Z)
   \<and> \<not> haszero (mask_to_list 1) [Some 3]
   \<and> predicts example_TreeDB (Arg 0) 1 0 ([Some 3], [Some 3])"
  using shape_rule_predicts_unskipped_records
          [OF solve_db_Z, of 0 "TreeRule (Arg 0) 1" "([Some 3], [Some 3])"]
        solve_db_Z
  by (simp add: db_Z_def db_Z0_def masks haszero_def)

section \<open>Graph generation with \<open>max_nodes = 1\<close>\<close>

lemma gen_loop_char:
  "\<exists>k \<le> budget.
     gen_loop try_insert extra m budget gen = (try_insert ^^ k) gen
     \<and> (num_op ((try_insert ^^ k) gen) \<ge> m \<or> k = budget \<or> extra m ((try_insert ^^ k) gen))
     \<and> (\<forall>j < k. num_op ((try_insert ^^ j) gen) < m \<and> \<not> extra m ((try_insert ^^ j) gen))"
proof (induction budget arbitrary: gen)
  case 0
  then show ?case by simp
next
  case (Suc budget)
  show ?case
  proof (cases "num_op gen < m \<and> \<not> extra m gen")
    case False
    then have "gen_loop try_insert extra m (Suc budget) gen = gen" by auto
    moreover have "num_op gen \<ge> m \<or> extra m gen" using False by auto
    ultimately show ?thesis by (intro exI [of _ 0]) auto
  next
    case True
    then have step: "gen_loop try_insert extra m (Suc budget) gen
               = gen_loop try_insert extra m budget (try_insert gen)" by simp
    obtain k where k: "k \<le> budget"
      and eq: "gen_loop try_insert extra m budget (try_insert gen)
               = (try_insert ^^ k) (try_insert gen)"
      and stop: "num_op ((try_insert ^^ k) (try_insert gen)) \<ge> m \<or> k = budget
                 \<or> extra m ((try_insert ^^ k) (try_insert gen))"
      and before: "\<forall>j < k. num_op ((try_insert ^^ j) (try_insert gen)) < m
                 \<and> \<not> extra m ((try_insert ^^ j) (try_insert gen))"
      using Suc.IH [of "try_insert gen"] by blast
    have sw: "(try_insert ^^ j) (try_insert gen) = (try_insert ^^ Suc j) gen" for j
      by (simp add: funpow_swap1)
    have "\<forall>j < Suc k. num_op ((try_insert ^^ j) gen) < m \<and> \<not> extra m ((try_insert ^^ j) gen)"
    proof (intro allI impI)
      fix j assume "j < Suc k"
      show "num_op ((try_insert ^^ j) gen) < m \<and> \<not> extra m ((try_insert ^^ j) gen)"
      proof (cases j)
        case 0
        then show ?thesis using True by simp
      next
        case (Suc j')
        then have "j' < k" using \<open>j < Suc k\<close> by simp
        then show ?thesis using before sw [of j'] Suc by auto
      qed
    qed
    then show ?thesis
      using k step eq stop sw [of k] by (intro exI [of _ "Suc k"]) auto
  qed
qed

lemma determine_ph_type_fields:
  "vars (ir (determine_ph_type ph b gen)) = vars (ir gen)"
  "length (insts (ir (determine_ph_type ph b gen))) = length (insts (ir gen))"
  "placeholders (determine_ph_type ph b gen) = placeholders gen"
  "rng (determine_ph_type ph b gen) = rng gen"
  by (simp_all add: determine_ph_type_def)

lemma determine_ph_type_nth:
  assumes "n < length (insts (ir gen))"
  shows "insts (ir (determine_ph_type ph b gen)) ! n =
           (if inst_id (insts (ir gen) ! n) = fst ph
            then (insts (ir gen) ! n)\<lparr>iexpr_op :=
                   (iexpr_op (insts (ir gen) ! n))\<lparr>kind := (if b then Input else Constant)\<rparr>\<rparr>
            else insts (ir gen) ! n)"
  using assms by (simp add: determine_ph_type_def)

lemma determine_rest_char:
  "vars (ir (determine_rest randint01 phs gen)) = vars (ir gen)
   \<and> length (insts (ir (determine_rest randint01 phs gen))) = length (insts (ir gen))
   \<and> (\<forall>n < length (insts (ir gen)).
        inst_id (insts (ir (determine_rest randint01 phs gen)) ! n) = inst_id (insts (ir gen) ! n)
        \<and> iexpr_args (insts (ir (determine_rest randint01 phs gen)) ! n)
          = iexpr_args (insts (ir gen) ! n)
        \<and> input_like (iexpr_op (insts (ir (determine_rest randint01 phs gen)) ! n))
          = input_like (iexpr_op (insts (ir gen) ! n))
        \<and> output_like (iexpr_op (insts (ir (determine_rest randint01 phs gen)) ! n))
          = output_like (iexpr_op (insts (ir gen) ! n))
        \<and> (inst_id (insts (ir gen) ! n) \<in> fst ` set phs
             \<longrightarrow> kind (iexpr_op (insts (ir (determine_rest randint01 phs gen)) ! n))
                 \<in> {Input, Constant})
        \<and> (inst_id (insts (ir gen) ! n) \<notin> fst ` set phs
             \<longrightarrow> kind (iexpr_op (insts (ir (determine_rest randint01 phs gen)) ! n))
                 = kind (iexpr_op (insts (ir gen) ! n))))"
proof (induction phs arbitrary: gen)
  case Nil
  then show ?case by simp
next
  case (Cons ph phs)
  obtain b r where br: "randint01 (rng gen) = (b, r)" by (cases "randint01 (rng gen)") auto
  define gen1 where "gen1 = determine_ph_type ph b (gen\<lparr>rng := r\<rparr>)"
  have res: "determine_rest randint01 (ph # phs) gen = determine_rest randint01 phs gen1"
    using br by (simp add: gen1_def)
  have v1: "vars (ir gen1) = vars (ir gen)"
    and l1: "length (insts (ir gen1)) = length (insts (ir gen))"
    by (simp_all add: gen1_def determine_ph_type_fields)
  have n1: "insts (ir gen1) ! n =
              (if inst_id (insts (ir gen) ! n) = fst ph
               then (insts (ir gen) ! n)\<lparr>iexpr_op :=
                      (iexpr_op (insts (ir gen) ! n))\<lparr>kind := (if b then Input else Constant)\<rparr>\<rparr>
               else insts (ir gen) ! n)"
    if "n < length (insts (ir gen))" for n
    using determine_ph_type_nth [of n "gen\<lparr>rng := r\<rparr>" ph b] that by (simp add: gen1_def)
  note IH = Cons.IH [of gen1]
  show ?case
    unfolding res
  proof (intro conjI allI impI)
    show "vars (ir (determine_rest randint01 phs gen1)) = vars (ir gen)"
      using IH v1 by simp
    show "length (insts (ir (determine_rest randint01 phs gen1))) = length (insts (ir gen))"
      using IH l1 by simp
  next
    fix n assume n: "n < length (insts (ir gen))"
    then have n': "n < length (insts (ir gen1))" using l1 by simp
    show "inst_id (insts (ir (determine_rest randint01 phs gen1)) ! n) = inst_id (insts (ir gen) ! n)"
      using IH n' n1 [OF n] by simp
    show "iexpr_args (insts (ir (determine_rest randint01 phs gen1)) ! n)
          = iexpr_args (insts (ir gen) ! n)"
      using IH n' n1 [OF n] by simp
    show "input_like (iexpr_op (insts (ir (determine_rest randint01 phs gen1)) ! n))
          = input_like (iexpr_op (insts (ir gen) ! n))"
      using IH n' n1 [OF n] by simp
    show "output_like (iexpr_op (insts (ir (determine_rest randint01 phs gen1)) ! n))
          = output_like (iexpr_op (insts (ir gen) ! n))"
      using IH n' n1 [OF n] by simp
    have id1: "inst_id (insts (ir gen1) ! n) = inst_id (insts (ir gen) ! n)"
      using n1 [OF n] by simp
    {
      assume "inst_id (insts (ir gen) ! n) \<in> fst ` set (ph # phs)"
      then consider "inst_id (insts (ir gen) ! n) \<in> fst ` set phs"
        | "inst_id (insts (ir gen) ! n) \<notin> fst ` set phs" "inst_id (insts (ir gen) ! n) = fst ph"
        by (cases "inst_id (insts (ir gen) ! n) \<in> fst ` set phs") auto
      then show "kind (iexpr_op (insts (ir (determine_rest randint01 phs gen1)) ! n))
                 \<in> {Input, Constant}"
      proof cases
        case 1
        then show ?thesis using IH n' id1 by simp
      next
        case 2
        then have "kind (iexpr_op (insts (ir (determine_rest randint01 phs gen1)) ! n))
                   = kind (iexpr_op (insts (ir gen1) ! n))"
          using IH n' id1 by simp
        then show ?thesis using n1 [OF n] 2 by simp
      qed
    }
    {
      assume "inst_id (insts (ir gen) ! n) \<notin> fst ` set (ph # phs)"
      then have a: "inst_id (insts (ir gen) ! n) \<notin> fst ` set phs"
        and b: "inst_id (insts (ir gen) ! n) \<noteq> fst ph" by auto
      have "kind (iexpr_op (insts (ir (determine_rest randint01 phs gen1)) ! n))
            = kind (iexpr_op (insts (ir gen1) ! n))"
        using IH n' id1 a by simp
      then show "kind (iexpr_op (insts (ir (determine_rest randint01 phs gen1)) ! n))
                 = kind (iexpr_op (insts (ir gen) ! n))"
        using n1 [OF n] b by simp
    }
  qed
qed

lemma finalised_promotion:
  "finalised ph phs (ir gen)
     (ir (determine_rest randint01 phs (determine_ph_type ph True gen)))"
proof -
  define gen1 where "gen1 = determine_ph_type ph True gen"
  have v1: "vars (ir gen1) = vars (ir gen)"
    and l1: "length (insts (ir gen1)) = length (insts (ir gen))"
    by (simp_all add: gen1_def determine_ph_type_fields)
  have n1: "insts (ir gen1) ! n =
              (if inst_id (insts (ir gen) ! n) = fst ph
               then (insts (ir gen) ! n)\<lparr>iexpr_op := (iexpr_op (insts (ir gen) ! n))\<lparr>kind := Input\<rparr>\<rparr>
               else insts (ir gen) ! n)"
    if "n < length (insts (ir gen))" for n
    using determine_ph_type_nth [of n gen ph True] that by (simp add: gen1_def)
  note R = determine_rest_char [of randint01 phs gen1]
  show ?thesis
    unfolding finalised_def gen1_def [symmetric]
  proof (intro conjI allI impI)
    show "vars (ir (determine_rest randint01 phs gen1)) = vars (ir gen)"
      using R v1 by simp
    show "length (insts (ir (determine_rest randint01 phs gen1))) = length (insts (ir gen))"
      using R l1 by simp
  next
    fix n assume n: "n < length (insts (ir gen))"
    then have n': "n < length (insts (ir gen1))" using l1 by simp
    have id1: "inst_id (insts (ir gen1) ! n) = inst_id (insts (ir gen) ! n)"
      using n1 [OF n] by simp
    show "inst_id (insts (ir (determine_rest randint01 phs gen1)) ! n) = inst_id (insts (ir gen) ! n)"
      using R n' n1 [OF n] by simp
    show "iexpr_args (insts (ir (determine_rest randint01 phs gen1)) ! n)
          = iexpr_args (insts (ir gen) ! n)"
      using R n' n1 [OF n] by simp
    show "input_like (iexpr_op (insts (ir (determine_rest randint01 phs gen1)) ! n))
          = input_like (iexpr_op (insts (ir gen) ! n))"
      using R n' n1 [OF n] by simp
    show "output_like (iexpr_op (insts (ir (determine_rest randint01 phs gen1)) ! n))
          = output_like (iexpr_op (insts (ir gen) ! n))"
      using R n' n1 [OF n] by simp
    {
      assume "inst_id (insts (ir gen) ! n) = fst ph \<and> fst ph \<notin> fst ` set phs"
      then have a: "inst_id (insts (ir gen) ! n) = fst ph"
        and b: "inst_id (insts (ir gen1) ! n) \<notin> fst ` set phs" using id1 by auto
      have "kind (iexpr_op (insts (ir (determine_rest randint01 phs gen1)) ! n))
            = kind (iexpr_op (insts (ir gen1) ! n))"
        using R n' b by simp
      then show "kind (iexpr_op (insts (ir (determine_rest randint01 phs gen1)) ! n)) = Input"
        using n1 [OF n] a by simp
    }
    {
      assume "inst_id (insts (ir gen) ! n) \<in> fst ` set (ph # phs)"
      then consider "inst_id (insts (ir gen) ! n) \<in> fst ` set phs"
        | "inst_id (insts (ir gen) ! n) \<notin> fst ` set phs" "inst_id (insts (ir gen) ! n) = fst ph"
        by (cases "inst_id (insts (ir gen) ! n) \<in> fst ` set phs") auto
      then show "kind (iexpr_op (insts (ir (determine_rest randint01 phs gen1)) ! n))
                 \<in> {Input, Constant}"
      proof cases
        case 1
        then show ?thesis using R n' id1 by simp
      next
        case 2
        then have "kind (iexpr_op (insts (ir (determine_rest randint01 phs gen1)) ! n))
                   = kind (iexpr_op (insts (ir gen1) ! n))"
          using R n' id1 by simp
        then show ?thesis using n1 [OF n] 2 by simp
      qed
    }
    {
      assume "inst_id (insts (ir gen) ! n) \<notin> fst ` set (ph # phs)"
      then have a: "inst_id (insts (ir gen1) ! n) \<notin> fst ` set phs"
        and b: "inst_id (insts (ir gen) ! n) \<noteq> fst ph" using id1 by auto
      have "kind (iexpr_op (insts (ir (determine_rest randint01 phs gen1)) ! n))
            = kind (iexpr_op (insts (ir gen1) ! n))"
        using R n' a by simp
      then show "kind (iexpr_op (insts (ir (determine_rest randint01 phs gen1)) ! n))
                 = kind (iexpr_op (insts (ir gen) ! n))"
        using n1 [OF n] b by simp
    }
  qed
qed

text \<open>
  The claim C9 as stated, that with \<open>max_nodes = 1\<close> the generator returns a
  one-instruction IR containing only a single input placeholder, fails as soon as an
  insertion attempt succeeds: the loop runs while \<open>num_op\<close>, which does not count
  placeholders, is below 1.  With a record of \<open>relu\<close> on the type of the first
  placeholder the returned IR has two instructions, the input and the operator.
\<close>

theorem max_nodes_one_inserts_an_operator_counterexample:
  "(case abstract_gen relu_try_insert (\<lambda>n gen. False) (\<lambda>r. (False, r)) 1 1 (DynoFuzzR_init t4 ()) of
      Inl e \<Rightarrow> False
    | Inr g \<Rightarrow> map (\<lambda>inst. kind (iexpr_op inst)) (insts (ir g)) = [Input, Compute ''relu''])"
  by code_simp

lemma abstract_gen_budget_2:
  "abstract_gen relu_try_insert (\<lambda>n gen. False) (\<lambda>r. (False, r)) 1 2 (DynoFuzzR_init t4 ())
   = Inr (determine_ph_type (0, 0) True (relu_try_insert (DynoFuzzR_init t4 ())))"
  by code_simp

text \<open>
  C9, amended.  With \<open>max_nodes = 1\<close> the generator attempts insertions while the IR
  holds no compute instruction (placeholders are not counted), the time budget lasts and
  the extra exit check does not fire: it leaves the loop after \<open>k\<close> attempts, at the
  first IR that holds a compute instruction or on which the exit check fires, or with
  the budget used up.  The result is that IR finalised: the instruction of the first
  placeholder is turned into a graph input and that of each other placeholder into an
  input or a constant, as \<open>finalised\<close> says, and nothing else changes.  So the result
  has as many instructions as the IR at the end of the loop, and it is the
  one-instruction IR with a single input placeholder only when that IR holds one
  instruction.
\<close>

theorem abstract_gen_max_nodes_one:
  assumes "abstract_gen try_insert extra randint01 1 budget gen = Inr g"
  shows "\<exists>k \<le> budget. \<exists>ph phs.
           placeholders ((try_insert ^^ k) gen) = ph # phs
           \<and> g = determine_rest randint01 phs (determine_ph_type ph True ((try_insert ^^ k) gen))
           \<and> finalised ph phs (ir ((try_insert ^^ k) gen)) (ir g)
           \<and> (num_op ((try_insert ^^ k) gen) \<ge> 1 \<or> k = budget \<or> extra 1 ((try_insert ^^ k) gen))
           \<and> (\<forall>j < k. num_op ((try_insert ^^ j) gen) = 0 \<and> \<not> extra 1 ((try_insert ^^ j) gen))"
proof -
  obtain k where k: "k \<le> budget"
    and eq: "gen_loop try_insert extra 1 budget gen = (try_insert ^^ k) gen"
    and stop: "num_op ((try_insert ^^ k) gen) \<ge> 1 \<or> k = budget \<or> extra 1 ((try_insert ^^ k) gen)"
    and before: "\<forall>j < k. num_op ((try_insert ^^ j) gen) < 1 \<and> \<not> extra 1 ((try_insert ^^ j) gen)"
    using gen_loop_char [of budget try_insert extra 1 gen] by blast
  obtain ph phs where p: "placeholders ((try_insert ^^ k) gen) = ph # phs"
    and g: "g = determine_rest randint01 phs (determine_ph_type ph True ((try_insert ^^ k) gen))"
    using assms eq by (auto simp: abstract_gen_def Let_def split: list.splits)
  have f: "finalised ph phs (ir ((try_insert ^^ k) gen)) (ir g)"
    unfolding g by (rule finalised_promotion)
  have b: "\<forall>j < k. num_op ((try_insert ^^ j) gen) = 0 \<and> \<not> extra 1 ((try_insert ^^ j) gen)"
    using before by auto
  show ?thesis
    using k p g f stop b by blast
qed

theorem abstract_gen_max_nodes_one_witness:
  "abstract_gen relu_try_insert (\<lambda>n gen. False) (\<lambda>r. (False, r)) 1 2 (DynoFuzzR_init t4 ())
     = Inr (determine_ph_type (0, 0) True (relu_try_insert (DynoFuzzR_init t4 ())))
   \<and> (\<exists>k \<le> 2. \<exists>ph phs.
         placeholders ((relu_try_insert ^^ k) (DynoFuzzR_init t4 ())) = ph # phs
         \<and> determine_ph_type (0, 0) True (relu_try_insert (DynoFuzzR_init t4 ()))
           = determine_rest (\<lambda>r. (False, r)) phs
               (determine_ph_type ph True ((relu_try_insert ^^ k) (DynoFuzzR_init t4 ())))
         \<and> finalised ph phs (ir ((relu_try_insert ^^ k) (DynoFuzzR_init t4 ())))
             (ir (determine_ph_type (0, 0) True (relu_try_insert (DynoFuzzR_init t4 ()))))
         \<and> (num_op ((relu_try_insert ^^ k) (DynoFuzzR_init t4 ())) \<ge> 1 \<or> k = 2 \<or> False)
         \<and> (\<forall>j < k. num_op ((relu_try_insert ^^ j) (DynoFuzzR_init t4 ())) = 0 \<and> \<not> False))
   \<and> num_op (DynoFuzzR_init t4 ()) = 0
   \<and> num_op (relu_try_insert (DynoFuzzR_init t4 ())) = 1
   \<and> map (\<lambda>inst. kind (iexpr_op inst))
         (insts (ir (determine_ph_type (0, 0) True (relu_try_insert (DynoFuzzR_init t4 ())))))
       = [Input, Compute ''relu'']"
proof -
  have a: "\<exists>k \<le> 2. \<exists>ph phs.
         placeholders ((relu_try_insert ^^ k) (DynoFuzzR_init t4 ())) = ph # phs
         \<and> determine_ph_type (0, 0) True (relu_try_insert (DynoFuzzR_init t4 ()))
           = determine_rest (\<lambda>r. (False, r)) phs
               (determine_ph_type ph True ((relu_try_insert ^^ k) (DynoFuzzR_init t4 ())))
         \<and> finalised ph phs (ir ((relu_try_insert ^^ k) (DynoFuzzR_init t4 ())))
             (ir (determine_ph_type (0, 0) True (relu_try_insert (DynoFuzzR_init t4 ()))))
         \<and> (num_op ((relu_try_insert ^^ k) (DynoFuzzR_init t4 ())) \<ge> 1 \<or> k = 2 \<or> False)
         \<and> (\<forall>j < k. num_op ((relu_try_insert ^^ j) (DynoFuzzR_init t4 ())) = 0 \<and> \<not> False)"
    using abstract_gen_max_nodes_one [OF abstract_gen_budget_2] by simp
  have b: "num_op (DynoFuzzR_init t4 ()) = 0" by code_simp
  have c: "num_op (relu_try_insert (DynoFuzzR_init t4 ())) = 1" by code_simp
  have d: "map (\<lambda>inst. kind (iexpr_op inst))
             (insts (ir (determine_ph_type (0, 0) True (relu_try_insert (DynoFuzzR_init t4 ())))))
           = [Input, Compute ''relu'']" by code_simp
  show ?thesis using a b c d abstract_gen_budget_2 by blast
qed

section \<open>The size cap of a tensor\<close>

subsection \<open>The record finder\<close>











subsection \<open>The insertions\<close>











subsection \<open>The claim\<close>











section \<open>The result of the dialect-rule matcher\<close>

lemma filter_fail_Inr:
  "filter_fail fail_all = Inr fail_list \<Longrightarrow>
   fail_list = filter (\<lambda>inputs. all_nonneg inputs = Inr True) fail_all"
proof (induction fail_all arbitrary: fail_list)
  case Nil
  then show ?case by simp
next
  case (Cons inputs rest)
  from Cons.prems obtain keep fs where k: "all_nonneg inputs = Inr keep"
    and f: "filter_fail rest = Inr fs" and l: "fail_list = (if keep then inputs # fs else fs)"
    by (auto split: sum.splits)
  from Cons.IH [OF f] have "fs = filter (\<lambda>inputs. all_nonneg inputs = Inr True) rest" .
  then show ?case using k l by simp
qed

lemma check_success_iff:
  assumes "check_success op_type inst r = Inr valid"
  shows "valid = accepts op_type inst r"
proof (cases "checked_type_transfer op_type (concrete_inputs inst (fst r))")
  case (Inl e)
  then show ?thesis using assms
    by (auto simp: check_success_def accepts_def Let_def split: if_splits)
next
  case (Inr outs)
  let ?std = "abs_to_concrete (output_tensors inst) (list_to_dict (snd r) Sym_o)"
  let ?n = "length (output_tensors inst)"
  have len: "?n \<le> length outs"
    using assms Inr by (auto simp: check_success_def Let_def split: if_splits)
  show ?thesis
  proof (cases "list_ex (\<lambda>i. fst (outs ! i) \<noteq> shape (?std ! i)) [0..<?n]")
    case True
    then have "valid = False"
      using assms Inr len by (auto simp: check_success_def Let_def split: if_splits)
    moreover have "\<not> accepts op_type inst r"
      using True Inr by (auto simp: accepts_def list_ex_iff)
    ultimately show ?thesis by simp
  next
    case False
    then have shapes: "\<forall>i < ?n. fst (outs ! i) = shape (?std ! i)"
      by (auto simp: list_ex_iff)
    show ?thesis
    proof (cases "checked_requires op_type (concrete_inputs inst (fst r))")
      case (Inl e)
      then have "valid = False"
        using assms Inr len False
        by (auto simp: check_success_def Let_def split: if_splits)
      moreover have "\<not> accepts op_type inst r" using Inl by (auto simp: accepts_def)
      ultimately show ?thesis by simp
    next
      case req: (Inr predicates)
      then have "valid = list_all (\<lambda>p. p) predicates"
        using assms Inr len False
        by (auto simp: check_success_def Let_def split: if_splits)
      moreover have "accepts op_type inst r = (\<forall>p \<in> set predicates. p)"
        using Inr req len shapes by (auto simp: accepts_def)
      ultimately show ?thesis by (simp add: list_all_iff)
    qed
  qed
qed

lemma success_loop_iff:
  "success_loop op_type inst rs = Inr valid \<Longrightarrow> valid = (\<forall>r \<in> set rs. accepts op_type inst r)"
proof (induction rs)
  case Nil
  then show ?case by simp
next
  case (Cons r rs)
  from Cons.prems obtain v where c: "check_success op_type inst r = Inr v"
    and rest: "(if \<not> v then Inr False else success_loop op_type inst rs) = Inr valid"
    by (auto split: sum.splits)
  note a = check_success_iff [OF c]
  show ?case
  proof (cases v)
    case True
    then show ?thesis using rest a Cons.IH by simp
  next
    case False
    then show ?thesis using rest a by auto
  qed
qed

lemma fail_loop_iff:
  "fail_loop op_type inst fs = Inr valid \<Longrightarrow> valid = (\<forall>inputs \<in> set fs. rejects op_type inst inputs)"
proof (induction fs)
  case Nil
  then show ?case by simp
next
  case (Cons inputs fs)
  show ?case
  proof (cases "checked_requires op_type (concrete_inputs inst inputs)")
    case (Inl e)
    then have "caught e" and "fail_loop op_type inst fs = Inr valid"
      using Cons.prems by (auto split: if_splits)
    moreover have "rejects op_type inst inputs" using Inl \<open>caught e\<close> by (auto simp: rejects_def)
    ultimately show ?thesis using Cons.IH by simp
  next
    case (Inr predicates)
    show ?thesis
    proof (cases "list_ex (\<lambda>p. \<not> p) predicates")
      case True
      then have "fail_loop op_type inst fs = Inr valid" using Cons.prems Inr by simp
      moreover have "rejects op_type inst inputs"
        using Inr True by (auto simp: rejects_def list_ex_iff)
      ultimately show ?thesis using Cons.IH by simp
    next
      case False
      then have "valid = False" using Cons.prems Inr by simp
      moreover have "\<not> rejects op_type inst inputs"
        using Inr False by (auto simp: rejects_def list_ex_iff)
      ultimately show ?thesis by simp
    qed
  qed
qed

lemma class_valid_iff:
  assumes "class_valid oracle inst success_list fail_list op_type = Inr valid"
    and "n_input op_type = length (input_tensors inst)"
    and "n_output op_type = length (output_tensors inst)"
  shows "valid = matches oracle inst success_list fail_list op_type"
proof -
  obtain valid1 where s: "success_loop op_type inst success_list = Inr valid1"
    using assms(1) by (auto simp: class_valid_def split: sum.splits)
  obtain probes_ok where b: "(if is_BcastBinaryOp op_type then bcast_check oracle inst success_list
                 else Inr True) = Inr probes_ok"
    using assms(1) s by (auto simp: class_valid_def split: sum.splits)
  have rest: "(if valid1 \<and> probes_ok then fail_loop op_type inst fail_list else Inr False) = Inr valid"
    using assms(1) s b by (simp add: class_valid_def)
  have v1: "valid1 = (\<forall>r \<in> set success_list. accepts op_type inst r)"
    using success_loop_iff [OF s] .
  have pb: "probes_ok = (is_BcastBinaryOp op_type \<longrightarrow> bcast_check oracle inst success_list = Inr True)"
    using b by (auto split: if_splits)
  show ?thesis
  proof (cases "valid1 \<and> probes_ok")
    case True
    then have "fail_loop op_type inst fail_list = Inr valid" using rest by simp
    from fail_loop_iff [OF this] show ?thesis
      using True v1 pb assms(2,3) by (auto simp: matches_def)
  next
    case False
    then have "valid = False" using rest by auto
    then show ?thesis using False v1 pb by (auto simp: matches_def)
  qed
qed

lemma rules_loop_char:
  assumes "rules_loop oracle inst success_list fail_list (enumerate n ops) = Inr res"
  shows "(res = [] \<and> (\<forall>j < length ops. \<not> matches oracle inst success_list fail_list (ops ! j)))
       \<or> (\<exists>k < length ops. res = [n + k]
             \<and> matches oracle inst success_list fail_list (ops ! k)
             \<and> (\<forall>j < k. \<not> matches oracle inst success_list fail_list (ops ! j)))"
  using assms
proof (induction ops arbitrary: n)
  case Nil
  then show ?case by simp
next
  case (Cons op_type ops)
  let ?M = "matches oracle inst success_list fail_list"
  have step: "(res = [] \<and> (\<forall>j < length (op_type # ops). \<not> ?M ((op_type # ops) ! j)))
       \<or> (\<exists>k < length (op_type # ops). res = [n + k] \<and> ?M ((op_type # ops) ! k)
             \<and> (\<forall>j < k. \<not> ?M ((op_type # ops) ! j)))"
    if rest: "rules_loop oracle inst success_list fail_list (enumerate (Suc n) ops) = Inr res"
      and no: "\<not> ?M op_type"
  proof -
    from Cons.IH [OF rest] consider
      (none) "res = []" "\<forall>j < length ops. \<not> ?M (ops ! j)"
      | (some) k where "k < length ops" "res = [Suc n + k]" "?M (ops ! k)"
          "\<forall>j < k. \<not> ?M (ops ! j)"
      by blast
    then show ?thesis
    proof cases
      case none
      have "\<not> ?M ((op_type # ops) ! j)" if "j < length (op_type # ops)" for j
        using that none(2) no by (cases j) auto
      then show ?thesis using none(1) by blast
    next
      case some
      have "\<not> ?M ((op_type # ops) ! j)" if "j < Suc k" for j
        using that some(4) no by (cases j) auto
      moreover have "Suc k < length (op_type # ops)" using some(1) by simp
      moreover have "res = [n + Suc k]" using some(2) by simp
      moreover have "?M ((op_type # ops) ! Suc k)" using some(3) by simp
      ultimately show ?thesis by blast
    qed
  qed
  show ?case
  proof (cases "n_input op_type = length (input_tensors inst)
         \<and> n_output op_type = length (output_tensors inst)")
    case False
    then have "rules_loop oracle inst success_list fail_list (enumerate (Suc n) ops) = Inr res"
      using Cons.prems by auto
    moreover have "\<not> ?M op_type" using False by (auto simp: matches_def)
    ultimately show ?thesis by (rule step)
  next
    case True
    then obtain valid where cv: "class_valid oracle inst success_list fail_list op_type = Inr valid"
      and rest: "(if valid then Inr [n]
                  else rules_loop oracle inst success_list fail_list (enumerate (Suc n) ops)) = Inr res"
      using Cons.prems by (auto split: sum.splits)
    have v: "valid = ?M op_type" using class_valid_iff [OF cv] True by simp
    show ?thesis
    proof (cases valid)
      case True
      then have "res = [n + 0]" using rest by simp
      moreover have "?M ((op_type # ops) ! 0)" using True v by simp
      ultimately show ?thesis by (intro disjI2 exI [of _ 0]) simp
    next
      case False
      then have "rules_loop oracle inst success_list fail_list (enumerate (Suc n) ops) = Inr res"
        using rest by simp
      moreover have "\<not> ?M op_type" using False v by simp
      ultimately show ?thesis by (rule step)
    qed
  qed
qed

lemma solve_unary:
  "nnsmith_solve_inst [elementwise_unary, elementwise_unary] no_oracle unary_inst unary_success []
   = Inr [0]"
  by code_simp

lemma matches_unary:
  "matches no_oracle unary_inst unary_success [] elementwise_unary"
  by (simp add: matches_def accepts_def elementwise_unary_def unary_inst_def unary_success_def
        concrete_inputs_def abs_to_concrete_def list_to_dict_def
        nnsmith_abstensor_from_ai_abstensor_def less_Suc_eq)

text \<open>
  The claim C5 as stated, that the matcher outputs the indices of every rule class that
  matches, fails when two classes match: the loop over the registry breaks after the
  first index it appends.  With a registry of two classes of unary elementwise operators
  the result is \<open>[0]\<close>, and the class at index 1 matches as well.
\<close>

theorem matcher_stops_at_first_match_counterexample:
  "nnsmith_solve_inst [elementwise_unary, elementwise_unary] no_oracle unary_inst unary_success []
     = Inr [0]
   \<and> matches no_oracle unary_inst unary_success [] ([elementwise_unary, elementwise_unary] ! 1)
   \<and> 1 \<notin> set [0 :: nat]"
  using solve_unary matches_unary by simp

text \<open>
  C5, amended.  The dialect-rule matcher outputs a list with at most one index: the
  index of the first rule class in the order of the registry that matches the operator
  instance, and no index when no class matches.  A class matches iff the input and
  output arities agree, on every success record \<open>type_transfer\<close> returns the recorded
  output shapes and every predicate of \<open>requires\<close> holds, every fail input whose values
  are all non-negative is rejected, by an \<open>IndexError\<close>, \<open>ConstraintError\<close> or
  \<open>InternalError\<close> that \<open>requires\<close> raises or by a false predicate, and, for the class
  of the broadcast operators, the probes with a shape symbol set to 1 succeed.
\<close>

theorem matcher_returns_first_matching_class:
  assumes "nnsmith_solve_inst ATTR_FREE_RULES oracle inst success_list fail_all = Inr res"
  shows "\<exists>fail_list.
           filter_fail fail_all = Inr fail_list
           \<and> fail_list = filter (\<lambda>inputs. all_nonneg inputs = Inr True) fail_all
           \<and> ((res = [] \<and> (\<forall>j < length ATTR_FREE_RULES.
                              \<not> matches oracle inst success_list fail_list (ATTR_FREE_RULES ! j)))
              \<or> (\<exists>k < length ATTR_FREE_RULES. res = [k]
                    \<and> matches oracle inst success_list fail_list (ATTR_FREE_RULES ! k)
                    \<and> (\<forall>j < k. \<not> matches oracle inst success_list fail_list
                                      (ATTR_FREE_RULES ! j))))"
proof -
  obtain fail_list where f: "filter_fail fail_all = Inr fail_list"
    and r: "rules_loop oracle inst success_list fail_list (enumerate 0 ATTR_FREE_RULES) = Inr res"
    using assms by (auto simp: nnsmith_solve_inst_def split: sum.splits)
  show ?thesis
    using f filter_fail_Inr [OF f] rules_loop_char [OF r] by auto
qed

theorem matcher_returns_first_matching_class_witness:
  "nnsmith_solve_inst [elementwise_unary, elementwise_unary] no_oracle unary_inst unary_success []
     = Inr [0]
   \<and> matches no_oracle unary_inst unary_success [] ([elementwise_unary, elementwise_unary] ! 0)"
  using matcher_returns_first_matching_class [OF solve_unary] solve_unary
  by auto

end
